theory Spec2Isabelle
  imports Complex_Main
begin

section \<open>Path interpolation and robot simulation: a shallow embedding\<close>

text \<open>
  The Python sources \<^verbatim>\<open>PathStructuresBezier.py\<close> and \<^verbatim>\<open>Robot.py\<close> compute with
  floats; here every float is a real number, so the theorems are about the algorithms
  and say nothing about rounding.  Python exceptions are values of type \<open>error\<close>; a
  function that can raise returns \<open>error + 'a\<close> with \<open>Inl\<close> for the exception.  When a
  call raises, the half-updated attributes of the Python object are dropped: only the
  exception is returned.  \<open>OutOfFuel\<close> is not a Python exception: the sampling loop of
  \<^verbatim>\<open>interpolateSplineCurve\<close> need not terminate (for a sampling distance that is not
  positive it never leaves the loop normally), so it is given a bound \<open>fuel\<close> on its
  iterations.
\<close>

datatype error =
    IndexError
  | ZeroDivisionError
  | AssertionError
  | UnboundLocalError
  | AttributeError
  | NotImplementedError
  | OutOfFuel

subsection \<open>Collaborators that are not part of the two source files\<close>

text \<open>Modelled from the spec: \<^verbatim>\<open>Utility.hypo\<close> is missing; it is the length of the
  vector \<open>(a, b)\<close> ("local path speed \<open>|gradient|\<close>", "its magnitude").\<close>

definition hypo :: "real \<Rightarrow> real \<Rightarrow> real" where
  "hypo a b = sqrt (a * a + b * b)"

text \<open>Modelled from the spec: \<^verbatim>\<open>Utility.distance\<close> is missing; it is the Euclidean
  distance between \<open>(x1, y1)\<close> and \<open>(x2, y2)\<close>.\<close>

definition distance :: "real \<Rightarrow> real \<Rightarrow> real \<Rightarrow> real \<Rightarrow> real" where
  "distance x1 y1 x2 y2 = hypo (x2 - x1) (y2 - y1)"

text \<open>Modelled from the spec: \<^verbatim>\<open>Utility.clamp\<close> is missing; it clamps a value to
  \<open>[lo, hi]\<close> ("clamp the requested velocity delta to \<open>[-maxAccel, +maxAccel]\<close>").\<close>

definition clamp :: "real \<Rightarrow> real \<Rightarrow> real \<Rightarrow> real" where
  "clamp v lo hi = max lo (min hi v)"

text \<open>Modelled from the spec: \<^verbatim>\<open>BezierCurves.getBezierPoint\<close> is missing; section 4.1
  makes it the cubic Bezier position with control points \<open>P1\<close>, \<open>P1 + V1\<close>, \<open>P2 + V2\<close>,
  \<open>P2\<close>.  \<open>bezier1\<close> is one coordinate of it.\<close>

definition bezier1 :: "real \<Rightarrow> real \<Rightarrow> real \<Rightarrow> real \<Rightarrow> real \<Rightarrow> real" where
  "bezier1 t c0 c1 c2 c3 =
     (1 - t) * (1 - t) * (1 - t) * c0 + 3 * (1 - t) * (1 - t) * t * c1
       + 3 * (1 - t) * t * t * c2 + t * t * t * c3"

definition getBezierPoint ::
  "real \<Rightarrow> real \<times> real \<Rightarrow> real \<times> real \<Rightarrow> real \<times> real \<Rightarrow> real \<times> real \<Rightarrow> real \<times> real" where
  "getBezierPoint t P1 V1 V2 P2 =
     (bezier1 t (fst P1) (fst P1 + fst V1) (fst P2 + fst V2) (fst P2),
      bezier1 t (snd P1) (snd P1 + snd V1) (snd P2 + snd V2) (snd P2))"

text \<open>Modelled from the spec: \<^verbatim>\<open>BezierCurves.getBezierGradient\<close> is missing; section
  4.1 makes it the derivative \<open>(dx/dt, dy/dt)\<close> of the same cubic.\<close>

definition bezierGradient1 :: "real \<Rightarrow> real \<Rightarrow> real \<Rightarrow> real \<Rightarrow> real \<Rightarrow> real" where
  "bezierGradient1 t c0 c1 c2 c3 =
     3 * (1 - t) * (1 - t) * (c1 - c0) + 6 * (1 - t) * t * (c2 - c1)
       + 3 * t * t * (c3 - c2)"

definition getBezierGradient ::
  "real \<Rightarrow> real \<times> real \<Rightarrow> real \<times> real \<Rightarrow> real \<times> real \<Rightarrow> real \<times> real \<Rightarrow> real \<times> real" where
  "getBezierGradient t P1 V1 V2 P2 =
     (bezierGradient1 t (fst P1) (fst P1 + fst V1) (fst P2 + fst V2) (fst P2),
      bezierGradient1 t (snd P1) (snd P1 + snd V1) (snd P2 + snd V2) (snd P2))"

subsection \<open>Data model\<close>

text \<open>A \<^verbatim>\<open>Pose\<close>: position, the forward and backward tangent offsets that
  \<^verbatim>\<open>setVectorOffset\<close> derives from the control point, the optional heading and the
  break flag.  The display attributes \<^verbatim>\<open>hovered\<close> and \<^verbatim>\<open>showCoords\<close> are left out.\<close>

record Pose =
  pose_x :: real
  pose_y :: real
  forward_x :: real
  forward_y :: real
  backward_x :: real
  backward_y :: real
  pose_theta :: "real option"
  isBreak :: bool

text \<open>The constructor \<^verbatim>\<open>Pose(x, y, forward_x_pt, forward_y_pt, theta)\<close>.\<close>

definition mkPose :: "real \<Rightarrow> real \<Rightarrow> real \<Rightarrow> real \<Rightarrow> real option \<Rightarrow> Pose" where
  "mkPose x y fxp fyp th =
     \<lparr>pose_x = x, pose_y = y,
      forward_x = fxp - x, forward_y = fyp - y,
      backward_x = x - fxp, backward_y = y - fyp,
      pose_theta = th, isBreak = False\<rparr>"

text \<open>A trajectory \<^verbatim>\<open>Point\<close>.  The constructor sets only the position (and a colour,
  left out); \<^verbatim>\<open>theta\<close> is first assigned by \<^verbatim>\<open>interpolateTheta\<close> and \<^verbatim>\<open>curve\<close> by
  \<^verbatim>\<open>startSimulation\<close>, so both are optional: \<open>None\<close> is an attribute that does not
  exist yet.\<close>

record Point =
  pt_x :: real
  pt_y :: real
  pt_theta :: "real option"
  pt_curve :: "real option"

definition mkPoint :: "real \<Rightarrow> real \<Rightarrow> Point" where
  "mkPoint x y = \<lparr>pt_x = x, pt_y = y, pt_theta = None, pt_curve = None\<rparr>"

text \<open>The part of a \<^verbatim>\<open>Path\<close> that interpolation reads and writes.\<close>

record Path =
  poses :: "Pose list"
  points :: "Point list"
  segmentDistance :: real

subsection \<open>Sampling one curve segment: \<^verbatim>\<open>interpolateSplineCurve\<close>\<close>

text \<open>The \<^verbatim>\<open>while ns < 1\<close> loop.  \<open>lst\<close> is the value of the local variables
  \<^verbatim>\<open>x, y\<close>: \<open>None\<close> until the loop body has run once.  The result is the extended
  point list and the value returned by the function.\<close>

fun sampleLoop ::
  "nat \<Rightarrow> real \<Rightarrow> real \<times> real \<Rightarrow> real \<times> real \<Rightarrow> real \<times> real \<Rightarrow> real \<times> real \<Rightarrow>
   real \<Rightarrow> (real \<times> real) option \<Rightarrow> Point list \<Rightarrow> error + (Point list \<times> real)" where
  "sampleLoop fuel segD P1 V1 V2 P2 ns lst pts =
     (if ns < 1 then
        (case fuel of
           0 \<Rightarrow> Inl OutOfFuel
         | Suc f \<Rightarrow>
             (let xy = getBezierPoint ns P1 V1 V2 P2;
                  pts' = pts @ [mkPoint (fst xy) (snd xy)];
                  g = getBezierGradient ns P1 V1 V2 P2;
                  h = hypo (fst g) (snd g)
              in if h = 0 then Inl ZeroDivisionError
                 else sampleLoop f segD P1 V1 V2 P2 (ns + segD / h) (Some xy) pts'))
      else
        (case lst of
           None \<Rightarrow> Inl UnboundLocalError
         | Some xy \<Rightarrow> Inr (pts, segD - distance (fst xy) (snd xy) (fst P2) (snd P2))))"

declare sampleLoop.simps [simp del]

definition interpolateSplineCurve ::
  "nat \<Rightarrow> Pose list \<Rightarrow> real \<Rightarrow> Point list \<Rightarrow> nat \<Rightarrow> real \<Rightarrow> error + (Point list \<times> real)" where
  "interpolateSplineCurve fuel ps segD pts i s =
     (if length ps \<le> i + 1 then Inl IndexError
      else
        (let P1 = (pose_x (ps ! i), pose_y (ps ! i));
             V1 = (forward_x (ps ! i), forward_y (ps ! i));
             V2 = (backward_x (ps ! (i + 1)), backward_y (ps ! (i + 1)));
             P2 = (pose_x (ps ! (i + 1)), pose_y (ps ! (i + 1)))
         in if s = 0 then sampleLoop fuel segD P1 V1 V2 P2 0 None pts
            else
              (let g = getBezierGradient 0 P1 V1 V2 P2;
                   h = hypo (fst g) (snd g)
               in if h = 0 then Inl ZeroDivisionError
                  else if s / h > 1 then Inr (pts, s / h - 1)
                  else sampleLoop fuel segD P1 V1 V2 P2 (s / h) None pts)))"

subsection \<open>Python list indexing\<close>

text \<open>\<^verbatim>\<open>xs[k]\<close> for a Python integer \<open>k\<close>: a negative index counts from the end, and
  an index outside \<open>[-len, len)\<close> raises \<^verbatim>\<open>IndexError\<close>.\<close>

definition py_valid :: "'a list \<Rightarrow> int \<Rightarrow> bool" where
  "py_valid xs k = (- int (length xs) \<le> k \<and> k < int (length xs))"

definition py_pos :: "'a list \<Rightarrow> int \<Rightarrow> nat" where
  "py_pos xs k = nat (if k < 0 then k + int (length xs) else k)"

definition py_get :: "'a list \<Rightarrow> int \<Rightarrow> error + 'a" where
  "py_get xs k = (if py_valid xs k then Inr (xs ! py_pos xs k) else Inl IndexError)"

text \<open>\<^verbatim>\<open>self.points[k].theta = v\<close> and \<^verbatim>\<open>points[k].curve = v\<close>.\<close>

definition setTheta :: "Point list \<Rightarrow> int \<Rightarrow> real \<Rightarrow> error + Point list" where
  "setTheta pts k v =
     (if py_valid pts k
      then Inr (pts[py_pos pts k := (pts ! py_pos pts k)\<lparr>pt_theta := Some v\<rparr>])
      else Inl IndexError)"

definition setCurve :: "Point list \<Rightarrow> int \<Rightarrow> real \<Rightarrow> error + Point list" where
  "setCurve pts k v =
     (if py_valid pts k
      then Inr (pts[py_pos pts k := (pts ! py_pos pts k)\<lparr>pt_curve := Some v\<rparr>])
      else Inl IndexError)"

subsection \<open>The heading pass: \<^verbatim>\<open>interpolateTheta\<close>\<close>

text \<open>The value of \<^verbatim>\<open>theta2adjusted\<close> after the \<^verbatim>\<open>if\<close>/\<^verbatim>\<open>elif\<close>.\<close>

definition theta2adjusted :: "real \<Rightarrow> real \<Rightarrow> real" where
  "theta2adjusted theta1 theta2 =
     (if theta2 - theta1 \<ge> pi then theta2 - 2 * pi
      else if theta1 - theta2 \<ge> pi then theta2 + 2 * pi
      else theta2)"

text \<open>The inner loop \<^verbatim>\<open>for i in range(0, i2-i1+1)\<close>, over the list of its indices.
  The right-hand side of the assignment is evaluated first, so the division by
  \<^verbatim>\<open>i2-i1\<close> raises before the point is looked up.\<close>

fun thetaSpan ::
  "int \<Rightarrow> real \<Rightarrow> int \<Rightarrow> real \<Rightarrow> nat list \<Rightarrow> Point list \<Rightarrow> error + Point list" where
  "thetaSpan i1 theta1 i2 theta2 [] pts = Inr pts"
| "thetaSpan i1 theta1 i2 theta2 (i # rest) pts =
     (if i2 - i1 = 0 then Inl ZeroDivisionError
      else
        (case setTheta pts (i1 + int i)
                (theta1 + (theta2adjusted theta1 theta2 - theta1)
                            * (real i / real_of_int (i2 - i1))) of
           Inl e \<Rightarrow> Inl e
         | Inr pts' \<Rightarrow> thetaSpan i1 theta1 i2 theta2 rest pts'))"

text \<open>The outer loop \<^verbatim>\<open>for ki in range(1, len(knownThetaIndexes))\<close>, over the anchors
  after the first; it returns the last values of \<^verbatim>\<open>i1\<close> and \<^verbatim>\<open>theta1\<close> too.\<close>

fun thetaAnchors ::
  "int \<Rightarrow> real \<Rightarrow> (int \<times> real) list \<Rightarrow> Point list \<Rightarrow> error + (int \<times> real \<times> Point list)" where
  "thetaAnchors i1 theta1 [] pts = Inr (i1, theta1, pts)"
| "thetaAnchors i1 theta1 ((i2, theta2) # rest) pts =
     (case thetaSpan i1 theta1 i2 theta2 [0..<nat (i2 - i1 + 1)] pts of
        Inl e \<Rightarrow> Inl e
      | Inr pts' \<Rightarrow> thetaAnchors i2 theta2 rest pts')"

text \<open>The last loop \<^verbatim>\<open>for index in range(i1, len(self.points))\<close>.\<close>

fun thetaTail :: "real \<Rightarrow> int list \<Rightarrow> Point list \<Rightarrow> error + Point list" where
  "thetaTail theta1 [] pts = Inr pts"
| "thetaTail theta1 (k # rest) pts =
     (case setTheta pts k theta1 of
        Inl e \<Rightarrow> Inl e
      | Inr pts' \<Rightarrow> thetaTail theta1 rest pts')"

definition interpolateTheta :: "(int \<times> real) list \<Rightarrow> Point list \<Rightarrow> error + Point list" where
  "interpolateTheta knownThetaIndexes pts =
     (case knownThetaIndexes of
        [] \<Rightarrow> Inl IndexError
      | (i1, theta1) # rest \<Rightarrow>
          if i1 \<noteq> 0 then Inl AssertionError
          else
            (case thetaAnchors i1 theta1 rest pts of
               Inl e \<Rightarrow> Inl e
             | Inr (iL, thetaL, pts') \<Rightarrow>
                 thetaTail thetaL [iL..int (length pts') - 1] pts'))"

subsection \<open>The whole interpolator: \<^verbatim>\<open>interpolatePoints\<close>\<close>

text \<open>One iteration of \<^verbatim>\<open>for i in range(len(self.poses) - 1)\<close> on the loop state:
  the points so far, \<^verbatim>\<open>knownThetaIndexes\<close> and the spillover \<^verbatim>\<open>s\<close>.\<close>

definition segmentStep ::
  "nat \<Rightarrow> Pose list \<Rightarrow> real \<Rightarrow> nat \<Rightarrow> Point list \<times> (int \<times> real) list \<times> real \<Rightarrow>
   error + (Point list \<times> (int \<times> real) list \<times> real)" where
  "segmentStep fuel ps segD i st =
     (case st of (pts, known, s) \<Rightarrow>
        if length ps \<le> i + 1 then Inl IndexError
        else if pose_x (ps ! i) = pose_x (ps ! (i + 1)) \<and> pose_y (ps ! i) = pose_y (ps ! (i + 1))
        then Inr (pts, known, s)
        else
          (let known' = (case pose_theta (ps ! i) of
                           None \<Rightarrow> known
                         | Some th \<Rightarrow> known @ [(int (length pts), th)])
           in case interpolateSplineCurve fuel ps segD pts i s of
                Inl e \<Rightarrow> Inl e
              | Inr (pts', s') \<Rightarrow>
                  Inr (pts', known', if isBreak (ps ! (i + 1)) then 0 else s')))"

fun interpolateSegments ::
  "nat \<Rightarrow> Pose list \<Rightarrow> real \<Rightarrow> nat list \<Rightarrow> Point list \<times> (int \<times> real) list \<times> real \<Rightarrow>
   error + (Point list \<times> (int \<times> real) list \<times> real)" where
  "interpolateSegments fuel ps segD [] st = Inr st"
| "interpolateSegments fuel ps segD (i # rest) st =
     (case segmentStep fuel ps segD i st of
        Inl e \<Rightarrow> Inl e
      | Inr st' \<Rightarrow> interpolateSegments fuel ps segD rest st')"

definition interpolatePoints :: "nat \<Rightarrow> Path \<Rightarrow> error + Path" where
  "interpolatePoints fuel p =
     (if length (poses p) < 2 then Inr (p\<lparr>points := []\<rparr>)
      else
        (case interpolateSegments fuel (poses p) (segmentDistance p)
                [0..<length (poses p) - 1] ([], [], 0) of
           Inl e \<Rightarrow> Inl e
         | Inr (pts, known, s) \<Rightarrow>
             (let known' = (case pose_theta (last (poses p)) of
                              None \<Rightarrow> known
                            | Some th \<Rightarrow> known @ [(int (length pts) - 1, th)])
              in case interpolateTheta known' pts of
                   Inl e \<Rightarrow> Inl e
                 | Inr pts' \<Rightarrow> Inr (p\<lparr>points := pts'\<rparr>))))"

section \<open>The robots of \<^verbatim>\<open>Robot.py\<close>\<close>

subsection \<open>Constants and library functions\<close>

definition STEP_TIME :: real where "STEP_TIME = 2 / 100"
definition K_P_TRANS :: real where "K_P_TRANS = 30"
definition K_P_ROT :: real where "K_P_ROT = 1"
definition STOP_DISTANCE_THRESHOLD :: real where "STOP_DISTANCE_THRESHOLD = 1"

text \<open>The two acceleration limits after the module has multiplied them by 0.02.\<close>

definition MAX_TRANS_ACCEL :: real where "MAX_TRANS_ACCEL = 120 * (2 / 100)"
definition MAX_ROT_ACCEL :: real where "MAX_ROT_ACCEL = 100 * (2 / 100)"
definition MAX_SPEED :: real where "MAX_SPEED = 60"
definition MAX_TIMESTEPS :: nat where "MAX_TIMESTEPS = 50000"

text \<open>\<^verbatim>\<open>math.atan2(y, x)\<close> on the reals (a real number has no signed zero): the angle of
  the vector \<open>(x, y)\<close> in \<open>(-pi, pi]\<close>, and 0 for the zero vector.\<close>

definition atan2 :: "real \<Rightarrow> real \<Rightarrow> real" where
  "atan2 y x =
     (if x > 0 then arctan (y / x)
      else if x < 0 then (if y \<ge> 0 then arctan (y / x) + pi else arctan (y / x) - pi)
      else if y > 0 then pi / 2
      else if y < 0 then - (pi / 2)
      else 0)"

text \<open>Python's \<^verbatim>\<open>a % m\<close> on floats, for a positive \<open>m\<close>: the result is in \<open>[0, m)\<close>.\<close>

definition pymod :: "real \<Rightarrow> real \<Rightarrow> real" where
  "pymod a m = a - m * of_int \<lfloor>a / m\<rfloor>"

subsection \<open>Simulation points\<close>

text \<open>A \<^verbatim>\<open>SimulationPoint\<close> has the three attributes of its constructor and whatever
  keyword arguments it was given: \<open>sim_kwargs\<close> is that dictionary, and a name it does not
  hold is an attribute the object does not have.\<close>

record SimulationPoint =
  sim_x :: real
  sim_y :: real
  sim_theta :: real
  sim_kwargs :: "string \<rightharpoonup> real"

definition mkSimulationPoint ::
  "real \<Rightarrow> real \<Rightarrow> real \<Rightarrow> (string \<rightharpoonup> real) \<Rightarrow> SimulationPoint" where
  "mkSimulationPoint x y theta kwargs =
     \<lparr>sim_x = x, sim_y = y, sim_theta = theta, sim_kwargs = kwargs\<rparr>"

subsection \<open>The curvature pass at the start of \<^verbatim>\<open>startSimulation\<close>\<close>

text \<open>The value stored in \<^verbatim>\<open>points[i].curve\<close> for the neighbours \<open>a = points[i-1]\<close>,
  \<open>b = points[i]\<close> and \<open>c = points[i+1]\<close>.\<close>

definition curveAngle :: "Point \<Rightarrow> Point \<Rightarrow> Point \<Rightarrow> real" where
  "curveAngle a b c =
     atan2 (pt_y c - pt_y a) (pt_x c - pt_x a) - atan2 (pt_y b - pt_y a) (pt_x b - pt_x a)"

definition curveValue :: "Point \<Rightarrow> Point \<Rightarrow> Point \<Rightarrow> real" where
  "curveValue a b c =
     (let angle = curveAngle a b c;
          angle = (if angle > pi then angle - 2 * pi else angle)
      in \<bar>angle\<bar>)"

text \<open>The loop \<^verbatim>\<open>for i in range(1, len(points) - 1)\<close>, over the list of its indices.\<close>

fun curveLoop :: "nat list \<Rightarrow> Point list \<Rightarrow> Point list" where
  "curveLoop [] pts = pts"
| "curveLoop (i # rest) pts =
     curveLoop rest
       (pts[i := (pts ! i)\<lparr>pt_curve :=
                   Some (curveValue (pts ! (i - 1)) (pts ! i) (pts ! (i + 1)))\<rparr>])"

definition curvaturePass :: "Point list \<Rightarrow> error + Point list" where
  "curvaturePass pts =
     (case setCurve pts 0 0 of
        Inl e \<Rightarrow> Inl e
      | Inr pts1 \<Rightarrow>
          (case setCurve pts1 (- 1) 0 of
             Inl e \<Rightarrow> Inl e
           | Inr pts2 \<Rightarrow> Inr (curveLoop [1..<length pts2 - 1] pts2)))"

subsection \<open>The ideal robot\<close>

text \<open>\<^verbatim>\<open>[SimulationPoint(p.x, p.y, p.theta) for p in points]\<close>: no keyword argument is
  given, and reading \<^verbatim>\<open>p.theta\<close> of a point that has none raises.\<close>

fun computeSimulationIdeal :: "Point list \<Rightarrow> error + SimulationPoint list" where
  "computeSimulationIdeal [] = Inr []"
| "computeSimulationIdeal (p # rest) =
     (case pt_theta p of
        None \<Rightarrow> Inl AttributeError
      | Some th \<Rightarrow>
          (case computeSimulationIdeal rest of
             Inl e \<Rightarrow> Inl e
           | Inr sims \<Rightarrow> Inr (mkSimulationPoint (pt_x p) (pt_y p) th Map.empty # sims)))"

subsection \<open>The pure pursuit robot\<close>

text \<open>The \<^verbatim>\<open>while start < end\<close> loop of \<^verbatim>\<open>findClosestPoint\<close>.\<close>

function closestLoop ::
  "Point list \<Rightarrow> real \<Rightarrow> real \<Rightarrow> int \<Rightarrow> int \<Rightarrow> int \<Rightarrow> real \<Rightarrow> error + int" where
  "closestLoop pts x y start endi minIndex minDist =
     (if start < endi then
        (case py_get pts start of
           Inl e \<Rightarrow> Inl e
         | Inr p \<Rightarrow>
             (let dist = distance x y (pt_x p) (pt_y p)
              in if dist < minDist
                 then closestLoop pts x y (start + 1) endi start dist
                 else closestLoop pts x y (start + 1) endi minIndex minDist))
      else Inr minIndex)"
  by pat_completeness auto
termination
  by (relation "measure (\<lambda>(pts, x, y, start, endi, minIndex, minDist). nat (endi - start))") auto

declare closestLoop.simps [simp del]

definition findClosestPoint ::
  "Point list \<Rightarrow> real \<Rightarrow> real \<Rightarrow> int \<Rightarrow> int \<Rightarrow> error + int" where
  "findClosestPoint pts x y start0 end0 =
     (let start = max start0 0;
          endi = min end0 (int (length pts) - 1)
      in case py_get pts start of
           Inl e \<Rightarrow> Inl e
         | Inr p \<Rightarrow>
             closestLoop pts x y (start + 1) endi start (distance x y (pt_x p) (pt_y p)))"

text \<open>The loop \<^verbatim>\<open>while li < len(points) - 1 and distance(...) < self.lookahead\<close>.\<close>

function lookaheadLoop :: "Point list \<Rightarrow> real \<Rightarrow> int \<Rightarrow> int \<Rightarrow> error + int" where
  "lookaheadLoop pts lookahead cidx lidx =
     (if lidx < int (length pts) - 1 then
        (case py_get pts lidx of
           Inl e \<Rightarrow> Inl e
         | Inr pl \<Rightarrow>
             (case py_get pts cidx of
                Inl e \<Rightarrow> Inl e
              | Inr pc \<Rightarrow>
                  if distance (pt_x pl) (pt_y pl) (pt_x pc) (pt_y pc) < lookahead
                  then lookaheadLoop pts lookahead cidx (lidx + 1)
                  else Inr lidx))
      else Inr lidx)"
  by pat_completeness auto
termination
  by (relation "measure (\<lambda>(pts, lookahead, cidx, lidx). nat (int (length pts) - 1 - lidx))") auto

declare lookaheadLoop.simps [simp del]

text \<open>The local variables of \<^verbatim>\<open>computeSimulation\<close> that live across iterations.
  \<open>st_draws\<close> counts the calls of \<^verbatim>\<open>random.triangular\<close> made so far: the random source is
  a parameter \<open>noise\<close>, whose \<open>k\<close>-th value is what the \<open>k\<close>-th call returns.\<close>

record PursuitState =
  st_x :: real
  st_y :: real
  st_theta :: real
  st_xvel :: real
  st_yvel :: real
  st_tvel :: real
  st_li :: int
  st_ci :: int
  st_draws :: nat

text \<open>The loop condition; \<^verbatim>\<open>or\<close> is short-circuit, so \<^verbatim>\<open>points[-1]\<close> is read only when
  \<^verbatim>\<open>li\<close> is the last index.\<close>

definition pursuitCond :: "Point list \<Rightarrow> PursuitState \<Rightarrow> error + bool" where
  "pursuitCond pts st =
     (if st_li st \<noteq> int (length pts) - 1 then Inr True
      else
        (case py_get pts (- 1) of
           Inl e \<Rightarrow> Inl e
         | Inr pe \<Rightarrow>
             Inr (distance (pt_x pe) (pt_y pe) (st_x st) (st_y st) > STOP_DISTANCE_THRESHOLD
                  \<or> \<bar>st_xvel st\<bar> > 5 \<or> \<bar>st_yvel st\<bar> > 5 \<or> \<bar>st_tvel st\<bar> > 5)))"

text \<open>The loop body after the step-count check: the new state and the simulation point
  that is appended.\<close>

definition pursuitStep ::
  "Point list \<Rightarrow> real \<Rightarrow> (nat \<Rightarrow> real) \<Rightarrow> PursuitState \<Rightarrow>
   error + (PursuitState \<times> SimulationPoint)" where
  "pursuitStep pts lookahead noise st =
     (case findClosestPoint pts (st_x st) (st_y st) (st_ci st) (st_ci st + 30) of
        Inl e \<Rightarrow> Inl e
      | Inr cidx \<Rightarrow>
     (case lookaheadLoop pts lookahead cidx (st_li st) of
        Inl e \<Rightarrow> Inl e
      | Inr lidx \<Rightarrow>
     (case py_get pts lidx of
        Inl e \<Rightarrow> Inl e
      | Inr pl \<Rightarrow>
     (let targetXVel0 = (pt_x pl - st_x st) * K_P_TRANS;
          targetYVel0 = (pt_y pl - st_y st) * K_P_TRANS;
          mag = hypo targetXVel0 targetYVel0
      in if mag = 0 then Inl ZeroDivisionError
         else
     (let scalar = min 1 (MAX_SPEED / mag);
          targetXVel = targetXVel0 * scalar;
          targetYVel = targetYVel0 * scalar
      in case pt_theta pl of
           None \<Rightarrow> Inl AttributeError
         | Some ltheta \<Rightarrow>
     (let dtheta0 = pymod (ltheta - st_theta st) (2 * pi);
          dtheta = (if dtheta0 > pi then dtheta0 - 2 * pi else dtheta0);
          targetTVel = dtheta * K_P_ROT;
          xv = st_xvel st + clamp (targetXVel - st_xvel st) (- MAX_TRANS_ACCEL) MAX_TRANS_ACCEL;
          yv = st_yvel st + clamp (targetYVel - st_yvel st) (- MAX_TRANS_ACCEL) MAX_TRANS_ACCEL;
          tv = st_tvel st + clamp (targetTVel - st_tvel st) (- MAX_ROT_ACCEL) MAX_ROT_ACCEL;
          x = st_x st + (xv * STEP_TIME + noise (st_draws st));
          y = st_y st + (yv * STEP_TIME + noise (st_draws st + 1));
          theta = st_theta st + tv * STEP_TIME
      in case py_get pts cidx of
           Inl e \<Rightarrow> Inl e
         | Inr pc \<Rightarrow>
             (case pt_curve pl of
                None \<Rightarrow> Inl AttributeError
              | Some cv \<Rightarrow>
                  Inr (\<lparr>st_x = x, st_y = y, st_theta = theta,
                        st_xvel = xv, st_yvel = yv, st_tvel = tv,
                        st_li = lidx, st_ci = cidx, st_draws = st_draws st + 2\<rparr>,
                       mkSimulationPoint x y theta
                         [''xvel'' \<mapsto> xv, ''yvel'' \<mapsto> yv, ''tvel'' \<mapsto> tv,
                          ''cx'' \<mapsto> pt_x pc, ''cy'' \<mapsto> pt_y pc,
                          ''lx'' \<mapsto> pt_x pl, ''ly'' \<mapsto> pt_y pl,
                          ''curve'' \<mapsto> cv]))))))))"

text \<open>The main loop.  \<open>sim\<close> is the list \<^verbatim>\<open>simulation\<close>, kept together with the state the
  loop variables had when each point was appended, which the Python list does not
  record; \<open>computeSimulationPursuit\<close> forgets those states again.\<close>

function pursuitLoop ::
  "Point list \<Rightarrow> real \<Rightarrow> (nat \<Rightarrow> real) \<Rightarrow> nat \<Rightarrow> PursuitState \<Rightarrow>
   (PursuitState \<times> SimulationPoint) list \<Rightarrow> error + (PursuitState \<times> SimulationPoint) list" where
  "pursuitLoop pts lookahead noise timestep st sim =
     (case pursuitCond pts st of
        Inl e \<Rightarrow> Inl e
      | Inr continue \<Rightarrow>
          if \<not> continue then Inr sim
          else if timestep > MAX_TIMESTEPS then Inr sim
          else
            (case pursuitStep pts lookahead noise st of
               Inl e \<Rightarrow> Inl e
             | Inr stp \<Rightarrow>
                 pursuitLoop pts lookahead noise (timestep + 1) (fst stp) (sim @ [stp])))"
  by pat_completeness auto
termination
  by (relation "measure (\<lambda>(pts, lookahead, noise, timestep, st, sim). MAX_TIMESTEPS + 1 - timestep)")
     auto

declare pursuitLoop.simps [simp del]

definition pursuitStart :: "Point list \<Rightarrow> (nat \<Rightarrow> real) \<Rightarrow> error + PursuitState" where
  "pursuitStart pts noise =
     (case py_get pts 0 of
        Inl e \<Rightarrow> Inl e
      | Inr p0 \<Rightarrow>
          (case pt_theta p0 of
             None \<Rightarrow> Inl AttributeError
           | Some th \<Rightarrow>
               Inr \<lparr>st_x = pt_x p0 + 10 * noise 0, st_y = pt_y p0 + 10 * noise 1,
                    st_theta = th, st_xvel = 0, st_yvel = 0, st_tvel = 0,
                    st_li = 0, st_ci = 0, st_draws = 2\<rparr>))"

definition pursuitRun ::
  "Point list \<Rightarrow> real \<Rightarrow> (nat \<Rightarrow> real) \<Rightarrow> error + (PursuitState \<times> SimulationPoint) list" where
  "pursuitRun pts lookahead noise =
     (case pursuitStart pts noise of
        Inl e \<Rightarrow> Inl e
      | Inr st0 \<Rightarrow> pursuitLoop pts lookahead noise 0 st0 [])"

definition computeSimulationPursuit ::
  "Point list \<Rightarrow> real \<Rightarrow> (nat \<Rightarrow> real) \<Rightarrow> error + SimulationPoint list" where
  "computeSimulationPursuit pts lookahead noise =
     (case pursuitRun pts lookahead noise of
        Inl e \<Rightarrow> Inl e
      | Inr sim \<Rightarrow> Inr (map snd sim))"

subsection \<open>The shared entry point: \<^verbatim>\<open>startSimulation\<close>\<close>

text \<open>The three classes; the width and length of a robot are only drawn.  The pure
  pursuit robot has its lookahead radius and, here, its random source.\<close>

datatype Robot =
    GenericRobot
  | IdealRobot
  | PurePursuitRobot real "nat \<Rightarrow> real"

fun computeSimulation :: "Robot \<Rightarrow> Point list \<Rightarrow> error + SimulationPoint list" where
  "computeSimulation GenericRobot pts = Inl NotImplementedError"
| "computeSimulation IdealRobot pts = computeSimulationIdeal pts"
| "computeSimulation (PurePursuitRobot lookahead noise) pts =
     computeSimulationPursuit pts lookahead noise"

text \<open>\<^verbatim>\<open>startSimulation\<close> returns \<^verbatim>\<open>len(self.simulation)\<close>; the model returns the points
  with their curvature and the simulation as well, the two objects it has changed.\<close>

definition startSimulation ::
  "Robot \<Rightarrow> Point list \<Rightarrow> error + (Point list \<times> SimulationPoint list \<times> nat)" where
  "startSimulation robot pts =
     (case curvaturePass pts of
        Inl e \<Rightarrow> Inl e
      | Inr pts' \<Rightarrow>
          (case computeSimulation robot pts' of
             Inl e \<Rightarrow> Inl e
           | Inr sim \<Rightarrow> Inr (pts', sim, length sim)))"

section \<open>Derived notions and example inputs\<close>

text \<open>The local path speed at the start of segment \<open>i\<close>: the value of
  \<^verbatim>\<open>Utility.hypo(dxds, dyds)\<close> that \<^verbatim>\<open>interpolateSplineCurve\<close> divides the incoming
  spillover by.\<close>

definition startSpeed :: "Pose list \<Rightarrow> nat \<Rightarrow> real" where
  "startSpeed ps i =
     (let g = getBezierGradient 0 (pose_x (ps ! i), pose_y (ps ! i))
                (forward_x (ps ! i), forward_y (ps ! i))
                (backward_x (ps ! (i + 1)), backward_y (ps ! (i + 1)))
                (pose_x (ps ! (i + 1)), pose_y (ps ! (i + 1)))
      in hypo (fst g) (snd g))"

text \<open>Poses on the x axis whose control points make the segment from \<open>(0, 0)\<close> to
  \<open>(48, 0)\<close> a straight line run through at constant speed 48.\<close>

definition poseA :: Pose where "poseA = mkPose 0 0 16 0 (Some 0)"
definition poseA' :: Pose where "poseA' = mkPose 0 0 16 0 None"
definition poseB :: Pose where "poseB = mkPose 48 0 64 0 None"
definition poseC :: Pose where "poseC = mkPose 48 0 64 0 (Some 0)"
definition poseD :: Pose where "poseD = mkPose 96 0 112 0 None"
definition poseDBreak :: Pose where "poseDBreak = poseD\<lparr>isBreak := True\<rparr>"

definition pathAB :: Path where
  "pathAB = \<lparr>poses = [poseA, poseB], points = [], segmentDistance = 36\<rparr>"

text \<open>A path whose first two poses coincide; its first pose has a heading.\<close>

definition pathAAC :: Path where
  "pathAAC = \<lparr>poses = [poseA, poseA', poseC], points = [], segmentDistance = 36\<rparr>"

text \<open>A trajectory of two points and a random source with which the pure pursuit
  robot starts at \<open>(0.84, 0.63)\<close> and stops after one step at \<open>(0.8, 0.6)\<close>; every
  noise value is within \<open>[-0.1, 0.1]\<close>, the range of \<^verbatim>\<open>POSITION_NOISE\<close>.\<close>

definition trajShort :: "Point list" where
  "trajShort =
     [\<lparr>pt_x = 4 / 100, pt_y = 3 / 100, pt_theta = Some 0, pt_curve = Some 0\<rparr>,
      \<lparr>pt_x = 0, pt_y = 0, pt_theta = Some 0, pt_curve = Some 0\<rparr>]"

definition noiseShort :: "nat \<Rightarrow> real" where
  "noiseShort k =
     (if k = 0 then 8 / 100 else if k = 1 then 6 / 100
      else if k = 2 then 8 / 1000 else if k = 3 then 18 / 1000 else 0)"

definition stShort0 :: PursuitState where
  "stShort0 = \<lparr>st_x = 84 / 100, st_y = 63 / 100, st_theta = 0, st_xvel = 0, st_yvel = 0,
      st_tvel = 0, st_li = 0, st_ci = 0, st_draws = 2\<rparr>"

definition stShort1 :: PursuitState where
  "stShort1 = \<lparr>st_x = 8 / 10, st_y = 6 / 10, st_theta = 0, st_xvel = - (24 / 10),
      st_yvel = - (24 / 10), st_tvel = 0, st_li = 1, st_ci = 0, st_draws = 4\<rparr>"

definition simShort1 :: SimulationPoint where
  "simShort1 = mkSimulationPoint (8 / 10) (6 / 10) 0
      [''xvel'' \<mapsto> - (24 / 10), ''yvel'' \<mapsto> - (24 / 10), ''tvel'' \<mapsto> 0,
       ''cx'' \<mapsto> 4 / 100, ''cy'' \<mapsto> 3 / 100, ''lx'' \<mapsto> 0, ''ly'' \<mapsto> 0, ''curve'' \<mapsto> 0]"

text \<open>The turn angle in the words of the specification, for comparison with
  \<open>curveAngle\<close>: the direction of the vector from \<open>b\<close> to \<open>c\<close> against the direction of the
  vector from \<open>a\<close> to \<open>b\<close>.\<close>

definition turnAngle :: "Point \<Rightarrow> Point \<Rightarrow> Point \<Rightarrow> real" where
  "turnAngle a b c =
     atan2 (pt_y c - pt_y b) (pt_x c - pt_x b) - atan2 (pt_y b - pt_y a) (pt_x b - pt_x a)"

text \<open>Normalising into \<open>(-pi, pi]\<close>, in the words of the specification; a difference of
  two values of \<open>atan2\<close> is within one turn of that interval.\<close>

definition normalizeAngle :: "real \<Rightarrow> real" where
  "normalizeAngle a = (if a > pi then a - 2 * pi else if a \<le> - pi then a + 2 * pi else a)"

text \<open>A trajectory with a right-angle corner, and one that runs into the branch cut of
  \<open>atan2\<close>.\<close>

definition trajCorner :: "Point list" where
  "trajCorner = [mkPoint 0 0, mkPoint 1 0, mkPoint 1 1]"

definition trajCut :: "Point list" where
  "trajCut = [mkPoint 0 0, mkPoint (- 1) 1, mkPoint (- 1) (- 1)]"

text \<open>The heading that \<^verbatim>\<open>interpolateTheta\<close> computes for the point at index \<open>j\<close> between
  the anchors \<open>(i1, theta1)\<close> and \<open>(i2, theta2)\<close>: the linear interpolation from \<open>theta1\<close>
  to the adjusted \<open>theta2\<close>, at the fraction \<open>(j - i1) / (i2 - i1)\<close>.\<close>

definition linTheta :: "int \<Rightarrow> real \<Rightarrow> int \<Rightarrow> real \<Rightarrow> int \<Rightarrow> real" where
  "linTheta i1 theta1 i2 theta2 j =
     theta1 + (theta2adjusted theta1 theta2 - theta1)
                * (real_of_int (j - i1) / real_of_int (i2 - i1))"

text \<open>Point lists without headings, with anchors half a turn apart, and with anchors
  at 135 and -135 degrees, between which the short way leads through 180 degrees.\<close>

definition trajThree :: "Point list" where
  "trajThree = [mkPoint 0 0, mkPoint 1 0, mkPoint 2 0]"

definition trajFour :: "Point list" where
  "trajFour = [mkPoint 0 0, mkPoint 1 0, mkPoint 2 0, mkPoint 3 0]"

definition knownHalfTurn :: "(int \<times> real) list" where
  "knownHalfTurn = [(0, 0), (2, pi)]"

definition knownWrap :: "(int \<times> real) list" where
  "knownWrap = [(0, 3 * pi / 4), (2, - (3 * pi / 4))]"

text \<open>The distance from \<open>(x, y)\<close> to the trajectory point at a non-negative index.\<close>

definition ptDist :: "Point list \<Rightarrow> real \<Rightarrow> real \<Rightarrow> int \<Rightarrow> real" where
  "ptDist pts x y j = distance x y (pt_x (pts ! nat j)) (pt_y (pts ! nat j))"

text \<open>The part of \<^verbatim>\<open>interpolatePoints\<close> before the call of \<^verbatim>\<open>interpolateTheta\<close>, for a path
  of at least two poses: the points without headings and the complete list
  \<^verbatim>\<open>knownThetaIndexes\<close>.\<close>

definition positionPass :: "nat \<Rightarrow> Path \<Rightarrow> error + (Point list \<times> (int \<times> real) list)" where
  "positionPass fuel p =
     (case interpolateSegments fuel (poses p) (segmentDistance p)
             [0..<length (poses p) - 1] ([], [], 0) of
        Inl e \<Rightarrow> Inl e
      | Inr (pts, known, s) \<Rightarrow>
          Inr (pts, (case pose_theta (last (poses p)) of
                       None \<Rightarrow> known
                     | Some th \<Rightarrow> known @ [(int (length pts) - 1, th)])))"

text \<open>The invariant of the anchors during the loop over the pose pairs: their indices
  ascend, and lie between 0 and the number of points emitted so far.\<close>

definition anchorsOk :: "Point list \<Rightarrow> (int \<times> real) list \<Rightarrow> bool" where
  "anchorsOk pts known =
     (sorted (map fst known) \<and> (\<forall>a \<in> set known. 0 \<le> fst a \<and> fst a \<le> int (length pts)))"

section \<open>Properties of the interpolator\<close>

subsection \<open>Geometry helpers\<close>

lemma upt_two: "[0..<Suc (Suc 0)] = [0, Suc 0]"
  by (simp add: upt_rec)

lemma hypo_axis: "hypo a 0 = \<bar>a\<bar>"
  by (simp add: hypo_def)

lemma hypo_eq: "0 \<le> c \<Longrightarrow> a * a + b * b = c * c \<Longrightarrow> hypo a b = c"
  by (simp add: hypo_def real_sqrt_unique power2_eq_square)

lemma getBezierGradient_line:
  "getBezierGradient t (0, 0) (16, 0) (- 16, 0) (48, 0) = (48, 0)"
  by (simp add: getBezierGradient_def bezierGradient1_def algebra_simps)

lemma getBezierPoint_line:
  "getBezierPoint t (0, 0) (16, 0) (- 16, 0) (48, 0) = (48 * t, 0)"
  by (simp add: getBezierPoint_def bezier1_def algebra_simps)

lemma sampleLoop_line:
  "sampleLoop 5 36 (0, 0) (16, 0) (- 16, 0) (48, 0) 0 None pts =
     Inr (pts @ [mkPoint 0 0, mkPoint 36 0], 24)"
  by (simp add: sampleLoop.simps [of "Suc n" for n] sampleLoop.simps [of 0] numeral_eq_Suc
        getBezierGradient_line getBezierPoint_line distance_def hypo_axis Let_def)

lemma segmentStep_line:
  "segmentStep 5 [poseA, poseB] 36 0 ([], [], 0) =
     Inr ([mkPoint 0 0, mkPoint 36 0], [(0, 0)], 24)"
  by (simp add: segmentStep_def interpolateSplineCurve_def poseA_def poseB_def mkPose_def
        sampleLoop_line)

subsection \<open>The sampling loop and its bound\<close>

text \<open>With a sampling distance that is not positive the curve parameter never grows,
  and the loop, once entered, does not return a result with any bound on its
  iterations.\<close>

lemma hypo_nonneg: "0 \<le> hypo a b"
  by (simp add: hypo_def)

lemma sampleLoop_nonpositive_distance:
  assumes "segD \<le> 0" and "ns < 1"
  shows "sampleLoop fuel segD P1 V1 V2 P2 ns lst pts \<noteq> Inr r"
  using assms(2)
proof (induction fuel arbitrary: ns lst pts)
  case 0
  then show ?case by (simp add: sampleLoop.simps [of 0])
next
  case (Suc f)
  define g where "g = getBezierGradient ns P1 V1 V2 P2"
  define h where "h = hypo (fst g) (snd g)"
  show ?case
  proof (cases "h = 0")
    case True
    with Suc.prems show ?thesis
      by (simp add: sampleLoop.simps [of "Suc f"] Let_def g_def h_def)
  next
    case False
    with hypo_nonneg [of "fst g" "snd g"] have "0 < h" by (simp add: h_def)
    with assms(1) have "segD / h \<le> 0" by (simp add: divide_nonpos_pos)
    with Suc.prems have "ns + segD / h < 1" by simp
    from Suc.IH [OF this] False Suc.prems show ?thesis
      by (simp add: sampleLoop.simps [of "Suc f"] Let_def g_def h_def)
  qed
qed

subsection \<open>The spillover after a sampled segment\<close>

text \<open>When the sampling loop returns, the points it was given are a prefix of its
  result, and the value it returns is the sampling distance minus the distance from the
  current \<^verbatim>\<open>(x, y)\<close> to \<open>P2\<close>; \<^verbatim>\<open>(x, y)\<close> is the last point the loop appended.\<close>

lemma sampleLoop_result:
  "sampleLoop fuel segD P1 V1 V2 P2 ns lst pts = Inr (pts', s') \<Longrightarrow>
   \<exists>ext xy. pts' = pts @ ext
     \<and> (if ext = [] then lst else Some (pt_x (last ext), pt_y (last ext))) = Some xy
     \<and> s' = segD - distance (fst xy) (snd xy) (fst P2) (snd P2)"
proof (induction fuel arbitrary: ns lst pts)
  case 0
  then show ?case
    by (auto simp: sampleLoop.simps [of 0] split: if_splits option.splits)
next
  case (Suc f)
  show ?case
  proof (cases "ns < 1")
    case False
    with Suc.prems show ?thesis
      by (auto simp: sampleLoop.simps [of "Suc f"] split: option.splits)
  next
    case True
    define xy where "xy = getBezierPoint ns P1 V1 V2 P2"
    define g where "g = getBezierGradient ns P1 V1 V2 P2"
    define h where "h = hypo (fst g) (snd g)"
    from True Suc.prems have h0: "h \<noteq> 0"
      and rec: "sampleLoop f segD P1 V1 V2 P2 (ns + segD / h) (Some xy)
                  (pts @ [mkPoint (fst xy) (snd xy)]) = Inr (pts', s')"
      by (auto simp: sampleLoop.simps [of "Suc f"] Let_def xy_def g_def h_def split: if_splits)
    from Suc.IH [OF rec] obtain ext q where
      e: "pts' = (pts @ [mkPoint (fst xy) (snd xy)]) @ ext"
      and l: "(if ext = [] then Some xy else Some (pt_x (last ext), pt_y (last ext))) = Some q"
      and s: "s' = segD - distance (fst q) (snd q) (fst P2) (snd P2)"
      by blast
    show ?thesis
      apply (rule exI [of _ "mkPoint (fst xy) (snd xy) # ext"])
      apply (rule exI [of _ q])
      using e l s by (auto simp: mkPoint_def split: if_splits)
  qed
qed

lemma interpolateSplineCurve_emitted:
  assumes "interpolateSplineCurve fuel ps segD pts i s = Inr (pts', s')" and "pts' \<noteq> pts"
  shows "s' = segD - distance (pt_x (last pts')) (pt_y (last pts'))
                 (pose_x (ps ! (i + 1))) (pose_y (ps ! (i + 1)))"
proof -
  from assms obtain ns where
    "sampleLoop fuel segD (pose_x (ps ! i), pose_y (ps ! i))
       (forward_x (ps ! i), forward_y (ps ! i))
       (backward_x (ps ! (i + 1)), backward_y (ps ! (i + 1)))
       (pose_x (ps ! (i + 1)), pose_y (ps ! (i + 1))) ns None pts = Inr (pts', s')"
    by (auto simp: interpolateSplineCurve_def Let_def split: if_splits)
  from sampleLoop_result [OF this] assms(2) show ?thesis
    by (auto split: if_splits)
qed

text \<open>
  Claim C1, as the code has it.  One iteration of the loop over the pose pairs that has
  appended at least one point (the sampling loop of \<^verbatim>\<open>interpolateSplineCurve\<close> ran and
  exited normally; the early return and the skipped degenerate pair append nothing)
  hands on, as spillover, the sampling distance \<^emph>\<open>minus\<close> the Euclidean distance between
  the last emitted point and the segment's end position \<open>P2\<close>, and hands on 0 when the
  pose at \<open>i + 1\<close> has its break flag set.
\<close>

theorem spillover_after_sampling:
  assumes "segmentStep fuel ps segD i (pts, known, s) = Inr (pts', known', s')"
    and "pts' \<noteq> pts"
  shows "s' = (if isBreak (ps ! (i + 1)) then 0
               else segD - distance (pt_x (last pts')) (pt_y (last pts'))
                             (pose_x (ps ! (i + 1))) (pose_y (ps ! (i + 1))))"
  using assms
  by (auto simp: segmentStep_def Let_def split: if_splits sum.splits
           dest: interpolateSplineCurve_emitted)

theorem spillover_after_sampling_witness:
  "segmentStep 5 [poseA, poseB] 36 0 ([], [], 0) =
     Inr ([mkPoint 0 0, mkPoint 36 0], [(0, 0)], 24)
   \<and> [mkPoint 0 0, mkPoint 36 0] \<noteq> []
   \<and> (24::real) = (if isBreak ([poseA, poseB] ! (0 + 1)) then 0
         else 36 - distance (pt_x (last [mkPoint 0 0, mkPoint 36 0]))
                    (pt_y (last [mkPoint 0 0, mkPoint 36 0]))
                    (pose_x ([poseA, poseB] ! (0 + 1))) (pose_y ([poseA, poseB] ! (0 + 1))))"
  using spillover_after_sampling [OF segmentStep_line] segmentStep_line by simp

text \<open>
  Claim C1 as stated fails: on the straight segment from \<open>(0, 0)\<close> to \<open>(48, 0)\<close>, sampled
  every 36 with no incoming spillover, the last emitted point is \<open>(36, 0)\<close>, the leftover
  distance to \<open>P2\<close> is 12, the pose at \<open>i + 1\<close> is no break, and the spillover handed on
  is 24.
\<close>

theorem spillover_is_not_leftover_distance:
  "segmentStep 5 [poseA, poseB] 36 0 ([], [], 0) =
     Inr ([mkPoint 0 0, mkPoint 36 0], [(0, 0)], 24)
   \<and> \<not> isBreak ([poseA, poseB] ! (0 + 1))
   \<and> distance (pt_x (last [mkPoint 0 0, mkPoint 36 0])) (pt_y (last [mkPoint 0 0, mkPoint 36 0]))
        (pose_x ([poseA, poseB] ! (0 + 1))) (pose_y ([poseA, poseB] ! (0 + 1))) = 12"
proof -
  have "distance 36 0 (pose_x poseB) (pose_y poseB) = 12"
    by (simp add: distance_def hypo_axis poseB_def mkPose_def)
  moreover have "\<not> isBreak poseB"
    by (simp add: poseB_def mkPose_def)
  ultimately show ?thesis
    using segmentStep_line by (simp add: mkPoint_def)
qed

subsection \<open>A segment shorter than the incoming spillover\<close>

lemma getBezierGradient_line2:
  "getBezierGradient t (48, 0) (16, 0) (- 16, 0) (96, 0) = (48, 0)"
  by (simp add: getBezierGradient_def bezierGradient1_def algebra_simps)

lemma sampleLoop_far:
  "sampleLoop 5 100 (0, 0) (16, 0) (- 16, 0) (48, 0) 0 None pts = Inr (pts @ [mkPoint 0 0], 52)"
  by (simp add: sampleLoop.simps [of "Suc n" for n] sampleLoop.simps [of 0] numeral_eq_Suc
        getBezierGradient_line getBezierPoint_line distance_def hypo_axis Let_def)

lemma segmentStep_far:
  "segmentStep 5 (poseA # poseB # rest) 100 0 ([], [], 0) = Inr ([mkPoint 0 0], [(0, 0)], 52)"
  by (simp add: segmentStep_def interpolateSplineCurve_def poseA_def poseB_def mkPose_def
        sampleLoop_far)

lemma startSpeed_second: "startSpeed [poseA, poseB, poseD] (Suc 0) = 48"
  by (simp add: startSpeed_def poseB_def poseD_def mkPose_def getBezierGradient_line2 hypo_axis)

lemma startSpeed_second_break: "startSpeed [poseA, poseB, poseDBreak] (Suc 0) = 48"
  by (simp add: startSpeed_def poseB_def poseD_def poseDBreak_def mkPose_def
        getBezierGradient_line2 hypo_axis)

text \<open>The early return of \<^verbatim>\<open>interpolateSplineCurve\<close>: the value returned is the
  parametric advance minus one.\<close>

lemma interpolateSplineCurve_early:
  assumes "i + 1 < length ps" and "s / startSpeed ps i > 1"
  shows "interpolateSplineCurve fuel ps segD pts i s = Inr (pts, s / startSpeed ps i - 1)"
proof -
  from assms(2) have "s \<noteq> 0" "startSpeed ps i \<noteq> 0" by auto
  with assms show ?thesis
    by (simp add: interpolateSplineCurve_def startSpeed_def Let_def)
qed

lemma segmentStep_short_nobreak:
  "segmentStep 5 [poseA, poseB, poseD] 100 1 ([mkPoint 0 0], [(0, 0)], 52) =
     Inr ([mkPoint 0 0], [(0, 0)], 1 / 12)"
proof -
  have "52 / startSpeed [poseA, poseB, poseD] 1 > 1" by (simp add: startSpeed_second)
  from interpolateSplineCurve_early [OF _ this, of 5 100 "[mkPoint 0 0]"] show ?thesis
    by (simp add: segmentStep_def startSpeed_second)
       (simp add: poseB_def poseD_def mkPose_def)
qed

lemma segmentStep_short_break:
  "segmentStep 5 [poseA, poseB, poseDBreak] 100 1 ([mkPoint 0 0], [(0, 0)], 52) =
     Inr ([mkPoint 0 0], [(0, 0)], 0)"
proof -
  have "52 / startSpeed [poseA, poseB, poseDBreak] 1 > 1" by (simp add: startSpeed_second_break)
  from interpolateSplineCurve_early [OF _ this, of 5 100 "[mkPoint 0 0]"] show ?thesis
    by (simp add: segmentStep_def poseB_def poseD_def poseDBreak_def mkPose_def)
qed

text \<open>
  Claim C2, as far as the code decides it by design.  For a pose pair at different
  positions whose first parametric advance \<open>s / startSpeed\<close> exceeds 1, the iteration
  returns normally, appends no point, and hands on spillover 0 when the pose at \<open>i + 1\<close>
  is a break.  What it hands on otherwise is not stated here.
\<close>

theorem early_return_emits_nothing:
  assumes "i + 1 < length ps"
    and "\<not> (pose_x (ps ! i) = pose_x (ps ! (i + 1)) \<and> pose_y (ps ! i) = pose_y (ps ! (i + 1)))"
    and "s / startSpeed ps i > 1"
  shows "\<exists>known' s'. segmentStep fuel ps segD i (pts, known, s) = Inr (pts, known', s')
           \<and> (isBreak (ps ! (i + 1)) \<longrightarrow> s' = 0)"
  using assms interpolateSplineCurve_early [OF assms(1,3)]
  by (auto simp: segmentStep_def Let_def)

theorem early_return_emits_nothing_witness:
  "1 + 1 < length [poseA, poseB, poseDBreak]
   \<and> \<not> (pose_x ([poseA, poseB, poseDBreak] ! 1) = pose_x ([poseA, poseB, poseDBreak] ! (1 + 1))
        \<and> pose_y ([poseA, poseB, poseDBreak] ! 1) = pose_y ([poseA, poseB, poseDBreak] ! (1 + 1)))
   \<and> 52 / startSpeed [poseA, poseB, poseDBreak] 1 > 1
   \<and> isBreak ([poseA, poseB, poseDBreak] ! (1 + 1))
   \<and> (\<exists>known' s'. segmentStep 5 [poseA, poseB, poseDBreak] 100 1 ([mkPoint 0 0], [(0, 0)], 52)
                      = Inr ([mkPoint 0 0], known', s')
           \<and> (isBreak ([poseA, poseB, poseDBreak] ! (1 + 1)) \<longrightarrow> s' = 0))"
proof -
  have a: "1 + 1 < length [poseA, poseB, poseDBreak]" by simp
  have b: "\<not> (pose_x ([poseA, poseB, poseDBreak] ! 1) = pose_x ([poseA, poseB, poseDBreak] ! (1 + 1))
        \<and> pose_y ([poseA, poseB, poseDBreak] ! 1) = pose_y ([poseA, poseB, poseDBreak] ! (1 + 1)))"
    by (simp add: poseB_def poseD_def poseDBreak_def mkPose_def)
  have c: "52 / startSpeed [poseA, poseB, poseDBreak] 1 > 1"
    by (simp add: startSpeed_second_break)
  have d: "isBreak ([poseA, poseB, poseDBreak] ! (1 + 1))" by (simp add: poseDBreak_def)
  from early_return_emits_nothing [OF a b c, of 5 100 "[mkPoint 0 0]" "[(0, 0)]"] a b c d
  show ?thesis by blast
qed

text \<open>
  Claim C2 as stated fails.  Three poses 48 apart on a line are sampled every 100: the
  first segment emits its start point and leaves spillover \<open>100 - 48 = 52\<close>; the second
  segment has arc length 48, and its first advance is \<open>52 / 48 > 1\<close>, so it emits no
  point; but the pose at its end is a break, and the spillover handed on is 0, not
  \<open>52 - 48 = 4\<close>.
\<close>

theorem early_return_break_counterexample:
  "segmentStep 5 [poseA, poseB, poseDBreak] 100 0 ([], [], 0) = Inr ([mkPoint 0 0], [(0, 0)], 52)
   \<and> 52 / startSpeed [poseA, poseB, poseDBreak] 1 > 1
   \<and> segmentStep 5 [poseA, poseB, poseDBreak] 100 1 ([mkPoint 0 0], [(0, 0)], 52)
       = Inr ([mkPoint 0 0], [(0, 0)], 0)
   \<and> 52 - distance (pose_x poseB) (pose_y poseB) (pose_x poseDBreak) (pose_y poseDBreak) = 4"
proof -
  have "52 - distance (pose_x poseB) (pose_y poseB) (pose_x poseDBreak) (pose_y poseDBreak) = 4"
    by (simp add: distance_def hypo_axis poseB_def poseD_def poseDBreak_def mkPose_def)
  then show ?thesis
    using segmentStep_short_break
    by (simp add: segmentStep_far startSpeed_second_break)
qed

text \<open>Without the break the same run hands on \<open>52 / 48 - 1 = 1 / 12\<close>, a difference of
  curve parameters, where the distance still owed is \<open>52 - 48 = 4\<close>.\<close>

lemma early_return_in_a_run:
  "interpolateSegments 5 [poseA, poseB, poseD] 100 [0..<length [poseA, poseB, poseD] - 1] ([], [], 0)
     = Inr ([mkPoint 0 0], [(0, 0)], 1 / 12)
   \<and> 52 - distance (pose_x poseB) (pose_y poseB) (pose_x poseD) (pose_y poseD) = 4"
proof -
  have "interpolateSegments 5 [poseA, poseB, poseD] 100 [0, Suc 0] ([], [], 0)
     = Inr ([mkPoint 0 0], [(0, 0)], 1 / 12)"
    using segmentStep_short_nobreak by (simp add: segmentStep_far)
  then show ?thesis
    by (simp add: upt_two)
       (simp add: distance_def hypo_axis poseB_def poseD_def mkPose_def)
qed

subsection \<open>The first anchor of the heading pass\<close>

lemma segmentStep_skip:
  "segmentStep 5 [poseA, poseA', poseC] 36 0 ([], [], 0) = Inr ([], [], 0)"
  by (simp add: segmentStep_def poseA_def poseA'_def mkPose_def)

lemma segmentStep_second:
  "segmentStep 5 [poseA, poseA', poseC] 36 1 ([], [], 0) =
     Inr ([mkPoint 0 0, mkPoint 36 0], [], 24)"
  by (simp add: segmentStep_def interpolateSplineCurve_def poseA'_def poseC_def mkPose_def
        sampleLoop_line)

text \<open>
  Claim C9 at a failing input.  The first pose of \<open>pathAAC\<close> has a heading, but the second
  pose lies on it, so the pair is skipped before the heading is recorded.  The second
  pair emits two points; the only anchor is that of the last pose, at index 1, and the
  assertion \<^verbatim>\<open>assert i1 == 0\<close> of \<^verbatim>\<open>interpolateTheta\<close> fails.
\<close>

theorem first_anchor_assertion_fails:
  "pose_theta (hd (poses pathAAC)) = Some 0
   \<and> interpolateSegments 5 (poses pathAAC) (segmentDistance pathAAC)
        [0..<length (poses pathAAC) - 1] ([], [], 0) = Inr ([mkPoint 0 0, mkPoint 36 0], [], 24)
   \<and> interpolatePoints 5 pathAAC = Inl AssertionError"
proof -
  have seg: "interpolateSegments 5 [poseA, poseA', poseC] 36 [0, Suc 0] ([], [], 0)
       = Inr ([mkPoint 0 0, mkPoint 36 0], [], 24)"
    using segmentStep_second by (simp add: segmentStep_skip)
  have th: "pose_theta poseC = Some 0" "pose_theta poseA = Some 0"
    by (simp_all add: poseC_def poseA_def mkPose_def)
  show ?thesis
    using seg th by (simp add: pathAAC_def interpolatePoints_def upt_two interpolateTheta_def)
qed

subsection \<open>The interpolator as a function of the poses and the sampling distance\<close>

lemma interpolatePoints_same_input:
  assumes "poses q = poses p" and "segmentDistance q = segmentDistance p"
    and "interpolatePoints fuel p = Inr p'"
  shows "interpolatePoints fuel q = Inr (q\<lparr>points := points p'\<rparr>)"
  using assms
  by (auto simp: interpolatePoints_def Let_def split: if_splits sum.splits prod.splits)

lemma interpolatePoints_line:
  "interpolatePoints 5 pathAB =
     Inr (pathAB\<lparr>points := [(mkPoint 0 0)\<lparr>pt_theta := Some 0\<rparr>,
                             (mkPoint 36 0)\<lparr>pt_theta := Some 0\<rparr>]\<rparr>)"
proof -
  have seg: "interpolateSegments 5 [poseA, poseB] 36 [0] ([], [], 0)
       = Inr ([mkPoint 0 0, mkPoint 36 0], [(0, 0)], 24)"
    using segmentStep_line by simp
  have th: "pose_theta poseB = None" by (simp add: poseB_def mkPose_def)
  have "interpolateTheta [(0, 0)] [mkPoint 0 0, mkPoint 36 0] =
      Inr [(mkPoint 0 0)\<lparr>pt_theta := Some 0\<rparr>, (mkPoint 36 0)\<lparr>pt_theta := Some 0\<rparr>]"
    by (simp add: interpolateTheta_def upto_rec1 setTheta_def py_valid_def py_pos_def)
  with seg th show ?thesis
    by (simp add: pathAB_def interpolatePoints_def)
qed

text \<open>
  Claim C10.  When \<^verbatim>\<open>interpolatePoints\<close> returns, running it again on the path it has
  left behind returns the same path; the poses and the sampling distance are untouched;
  and any path with the same poses and sampling distance, whatever its old points, gets
  the same point sequence.
\<close>

theorem interpolatePoints_idempotent:
  assumes "interpolatePoints fuel p = Inr p'"
  shows "interpolatePoints fuel p' = Inr p'
     \<and> poses p' = poses p \<and> segmentDistance p' = segmentDistance p
     \<and> (\<forall>q. poses q = poses p \<and> segmentDistance q = segmentDistance p
            \<longrightarrow> interpolatePoints fuel q = Inr (q\<lparr>points := points p'\<rparr>))"
proof -
  from assms have a: "poses p' = poses p" and b: "segmentDistance p' = segmentDistance p"
    by (auto simp: interpolatePoints_def Let_def split: if_splits sum.splits prod.splits)
  from interpolatePoints_same_input [OF a b assms] have "interpolatePoints fuel p' = Inr p'"
    by simp
  with a b interpolatePoints_same_input [OF _ _ assms] show ?thesis by blast
qed

theorem interpolatePoints_idempotent_witness:
  "interpolatePoints 5 pathAB =
     Inr (pathAB\<lparr>points := [(mkPoint 0 0)\<lparr>pt_theta := Some 0\<rparr>,
                             (mkPoint 36 0)\<lparr>pt_theta := Some 0\<rparr>]\<rparr>)
   \<and> interpolatePoints 5
       (pathAB\<lparr>points := [(mkPoint 0 0)\<lparr>pt_theta := Some 0\<rparr>,
                           (mkPoint 36 0)\<lparr>pt_theta := Some 0\<rparr>]\<rparr>) =
     Inr (pathAB\<lparr>points := [(mkPoint 0 0)\<lparr>pt_theta := Some 0\<rparr>,
                             (mkPoint 36 0)\<lparr>pt_theta := Some 0\<rparr>]\<rparr>)"
  using interpolatePoints_idempotent [OF interpolatePoints_line] interpolatePoints_line by simp

section \<open>Properties of the robots\<close>

subsection \<open>The closest-point search\<close>

text \<open>
  Claim C5 at a failing input.  On a trajectory of two points, from the position
  \<open>(1, 0)\<close> and with \<^verbatim>\<open>ci = 0\<close>, the call \<^verbatim>\<open>findClosestPoint(points, x, y, ci, ci + 30)\<close>
  returns index 0, at distance 1, although index 1 is a valid index inside
  \<open>[ci, ci + 30)\<close> and at distance 0: the window is clipped to \<^verbatim>\<open>len(points) - 1\<close>, and
  its end is exclusive, so the last trajectory point is never examined.
\<close>

theorem findClosestPoint_skips_last_index:
  "findClosestPoint [mkPoint 0 0, mkPoint 1 0] 1 0 0 (0 + 30) = Inr 0
   \<and> distance 1 0 (pt_x ([mkPoint 0 0, mkPoint 1 0] ! 1)) (pt_y ([mkPoint 0 0, mkPoint 1 0] ! 1)) = 0
   \<and> distance 1 0 (pt_x ([mkPoint 0 0, mkPoint 1 0] ! 0)) (pt_y ([mkPoint 0 0, mkPoint 1 0] ! 0)) = 1"
  by (simp add: findClosestPoint_def py_get_def py_valid_def py_pos_def closestLoop.simps
        mkPoint_def distance_def hypo_axis)

text \<open>What the search does examine, for a valid \<^verbatim>\<open>ci\<close>: the index \<^verbatim>\<open>ci\<close> itself and the
  indices after it that are below both \<^verbatim>\<open>ci + 30\<close> and \<^verbatim>\<open>len(points) - 1\<close>.  It returns
  one of them, and none of them is closer.\<close>

lemma py_get_nonneg: "0 \<le> k \<Longrightarrow> k < int (length xs) \<Longrightarrow> py_get xs k = Inr (xs ! nat k)"
  by (simp add: py_get_def py_valid_def py_pos_def)

lemma closestLoop_min:
  assumes "0 \<le> start" and "endi \<le> int (length pts)"
  shows "\<exists>r dr. closestLoop pts x y start endi m d = Inr r \<and> dr \<le> d
     \<and> (\<forall>j. start \<le> j \<and> j < endi \<longrightarrow> dr \<le> ptDist pts x y j)
     \<and> ((r = m \<and> dr = d) \<or> (start \<le> r \<and> r < endi \<and> dr = ptDist pts x y r))"
  using assms
proof (induction pts x y start endi m d rule: closestLoop.induct)
  case (1 pts x y start endi minIndex minDist)
  show ?case
  proof (cases "start < endi")
    case False
    then have "closestLoop pts x y start endi minIndex minDist = Inr minIndex"
      by (simp add: closestLoop.simps [of pts x y start endi minIndex minDist])
    with False show ?thesis
      by (intro exI [of _ minIndex] exI [of _ minDist]) auto
  next
    case True
    with "1.prems" have g: "py_get pts start = Inr (pts ! nat start)"
      by (simp add: py_get_nonneg)
    let ?dist = "distance x y (pt_x (pts ! nat start)) (pt_y (pts ! nat start))"
    have dd: "?dist = ptDist pts x y start" by (simp add: ptDist_def)
    from "1.prems" have s1: "0 \<le> start + 1" by simp
    have split: "(start \<le> j \<and> j < endi) = (j = start \<or> (start + 1 \<le> j \<and> j < endi))" for j
      using True by auto
    show ?thesis
    proof (cases "?dist < minDist")
      case lt: True
      from "1.IH"(1) [OF True g refl lt s1 "1.prems"(2)] obtain r dr where
        r: "closestLoop pts x y (start + 1) endi start ?dist = Inr r"
        and le: "dr \<le> ?dist"
        and a: "\<forall>j. start + 1 \<le> j \<and> j < endi \<longrightarrow> dr \<le> ptDist pts x y j"
        and w: "(r = start \<and> dr = ?dist) \<or> (start + 1 \<le> r \<and> r < endi \<and> dr = ptDist pts x y r)"
        by blast
      from True g lt r have e: "closestLoop pts x y start endi minIndex minDist = Inr r"
        by (simp add: closestLoop.simps [of pts x y start endi minIndex minDist])
      from le lt have c1: "dr \<le> minDist" by simp
      have c2: "\<forall>j. start \<le> j \<and> j < endi \<longrightarrow> dr \<le> ptDist pts x y j"
        unfolding split using a le dd by auto
      from w True dd have c3: "start \<le> r \<and> r < endi \<and> dr = ptDist pts x y r" by auto
      from e c1 c2 c3 show ?thesis by blast
    next
      case ge: False
      from "1.IH"(2) [OF True g refl ge s1 "1.prems"(2)] obtain r dr where
        r: "closestLoop pts x y (start + 1) endi minIndex minDist = Inr r"
        and le: "dr \<le> minDist"
        and a: "\<forall>j. start + 1 \<le> j \<and> j < endi \<longrightarrow> dr \<le> ptDist pts x y j"
        and w: "(r = minIndex \<and> dr = minDist)
                 \<or> (start + 1 \<le> r \<and> r < endi \<and> dr = ptDist pts x y r)"
        by blast
      from True g ge r have e: "closestLoop pts x y start endi minIndex minDist = Inr r"
        by (simp add: closestLoop.simps [of pts x y start endi minIndex minDist])
      from ge dd le have m: "dr \<le> ptDist pts x y start" by simp
      have c2: "\<forall>j. start \<le> j \<and> j < endi \<longrightarrow> dr \<le> ptDist pts x y j"
        unfolding split using a m by auto
      from w have c3: "(r = minIndex \<and> dr = minDist)
                 \<or> (start \<le> r \<and> r < endi \<and> dr = ptDist pts x y r)" by auto
      from e le c2 c3 show ?thesis by blast
    qed
  qed
qed

lemma findClosestPoint_window:
  assumes "0 \<le> c" and "c < int (length pts)"
  shows "\<exists>r. findClosestPoint pts x y c (c + 30) = Inr r
     \<and> (r = c \<or> (c < r \<and> r < min (c + 30) (int (length pts) - 1)))
     \<and> ptDist pts x y r \<le> ptDist pts x y c
     \<and> (\<forall>j. c < j \<and> j < min (c + 30) (int (length pts) - 1)
            \<longrightarrow> ptDist pts x y r \<le> ptDist pts x y j)"
proof -
  let ?e = "min (c + 30) (int (length pts) - 1)"
  from assms have g: "py_get pts c = Inr (pts ! nat c)" by (simp add: py_get_nonneg)
  from assms have mx: "max c 0 = c" by simp
  have fc: "findClosestPoint pts x y c (c + 30) =
      closestLoop pts x y (c + 1) ?e c (ptDist pts x y c)"
    by (simp add: findClosestPoint_def Let_def mx g ptDist_def)
  from assms have s: "0 \<le> c + 1" and e: "?e \<le> int (length pts)" by auto
  from closestLoop_min [OF s e, of x y c "ptDist pts x y c"] obtain r dr where
    r: "closestLoop pts x y (c + 1) ?e c (ptDist pts x y c) = Inr r"
    and le: "dr \<le> ptDist pts x y c"
    and a: "\<forall>j. c + 1 \<le> j \<and> j < ?e \<longrightarrow> dr \<le> ptDist pts x y j"
    and w: "(r = c \<and> dr = ptDist pts x y c) \<or> (c + 1 \<le> r \<and> r < ?e \<and> dr = ptDist pts x y r)"
    by blast
  from w have dr: "dr = ptDist pts x y r" by auto
  from w have "r = c \<or> (c < r \<and> r < ?e)" by auto
  moreover from a dr have "\<forall>j. c < j \<and> j < ?e \<longrightarrow> ptDist pts x y r \<le> ptDist pts x y j"
    by auto
  ultimately show ?thesis using fc r le dr by auto
qed

subsection \<open>The ideal robot\<close>

lemma computeSimulationIdeal_map:
  "\<forall>p \<in> set pts. pt_theta p \<noteq> None \<Longrightarrow>
   computeSimulationIdeal pts =
     Inr (map (\<lambda>p. mkSimulationPoint (pt_x p) (pt_y p) (the (pt_theta p)) Map.empty) pts)"
  by (induction pts) (auto split: option.splits)

text \<open>
  Claim C7, as the code has it.  On a trajectory all of whose points have a heading,
  the ideal robot's simulation has exactly one simulation point per trajectory point,
  with that point's position and heading, and with no keyword attribute at all: the
  velocity fields do not exist.
\<close>

theorem ideal_trace_copies_trajectory:
  assumes "\<forall>p \<in> set pts. pt_theta p \<noteq> None"
  shows "\<exists>sims. computeSimulationIdeal pts = Inr sims \<and> length sims = length pts
     \<and> (\<forall>i < length pts. sim_x (sims ! i) = pt_x (pts ! i) \<and> sim_y (sims ! i) = pt_y (pts ! i)
            \<and> Some (sim_theta (sims ! i)) = pt_theta (pts ! i)
            \<and> sim_kwargs (sims ! i) = Map.empty)"
  using assms by (auto simp: computeSimulationIdeal_map mkSimulationPoint_def)

theorem ideal_trace_copies_trajectory_witness:
  "pt_theta ((mkPoint 3 4)\<lparr>pt_theta := Some 1\<rparr>) \<noteq> None
   \<and> (\<exists>sims. computeSimulationIdeal [(mkPoint 3 4)\<lparr>pt_theta := Some 1\<rparr>] = Inr sims
        \<and> length sims = length [(mkPoint 3 4)\<lparr>pt_theta := Some 1\<rparr>]
        \<and> (\<forall>i < length [(mkPoint 3 4)\<lparr>pt_theta := Some 1\<rparr>].
              sim_x (sims ! i) = pt_x ([(mkPoint 3 4)\<lparr>pt_theta := Some 1\<rparr>] ! i)
            \<and> sim_y (sims ! i) = pt_y ([(mkPoint 3 4)\<lparr>pt_theta := Some 1\<rparr>] ! i)
            \<and> Some (sim_theta (sims ! i)) = pt_theta ([(mkPoint 3 4)\<lparr>pt_theta := Some 1\<rparr>] ! i)
            \<and> sim_kwargs (sims ! i) = Map.empty))"
proof -
  have h: "\<forall>p \<in> set [(mkPoint 3 4)\<lparr>pt_theta := Some 1\<rparr>]. pt_theta p \<noteq> None"
    by simp
  from ideal_trace_copies_trajectory [OF h] show ?thesis by simp
qed

text \<open>
  Claim C7 as stated fails: the simulation point the ideal robot makes for a trajectory
  point has no \<^verbatim>\<open>xvel\<close>, \<^verbatim>\<open>yvel\<close> or \<^verbatim>\<open>tvel\<close>; none of them is reported as zero.
\<close>

theorem ideal_trace_has_no_velocity_fields:
  "computeSimulationIdeal [(mkPoint 0 0)\<lparr>pt_theta := Some 0\<rparr>]
     = Inr [mkSimulationPoint 0 0 0 Map.empty]
   \<and> sim_kwargs (mkSimulationPoint 0 0 0 Map.empty) ''xvel'' \<noteq> Some 0
   \<and> sim_kwargs (mkSimulationPoint 0 0 0 Map.empty) ''yvel'' \<noteq> Some 0
   \<and> sim_kwargs (mkSimulationPoint 0 0 0 Map.empty) ''tvel'' \<noteq> Some 0"
  by (simp add: mkPoint_def mkSimulationPoint_def)

subsection \<open>Starting a simulation on an empty trajectory\<close>

text \<open>
  Claim C8, as the code has it.  A path with no pose or with one pose is interpolated
  to the empty trajectory, and \<^verbatim>\<open>startSimulation\<close> on the empty trajectory raises
  \<^verbatim>\<open>IndexError\<close> at \<^verbatim>\<open>points[0].curve = 0\<close>, for every robot.
\<close>

theorem startSimulation_empty_fails:
  "startSimulation robot [] = Inl IndexError
   \<and> interpolatePoints fuel (p\<lparr>poses := []\<rparr>) = Inr (p\<lparr>poses := [], points := []\<rparr>)
   \<and> interpolatePoints fuel (p\<lparr>poses := [q]\<rparr>) = Inr (p\<lparr>poses := [q], points := []\<rparr>)"
  by (simp add: startSimulation_def curvaturePass_def setCurve_def py_valid_def
        interpolatePoints_def)

text \<open>
  Claim C8 as stated fails: the path with the single pose \<open>poseA\<close> is interpolated to the
  empty trajectory, and \<^verbatim>\<open>startSimulation\<close> on it does not return 0 steps.
\<close>

theorem startSimulation_empty_not_zero:
  "interpolatePoints 5 \<lparr>poses = [poseA], points = [], segmentDistance = 36\<rparr>
     = Inr \<lparr>poses = [poseA], points = [], segmentDistance = 36\<rparr>
   \<and> startSimulation IdealRobot [] \<noteq> Inr ([], [], 0)"
  by (simp add: startSimulation_def curvaturePass_def setCurve_def py_valid_def
        interpolatePoints_def)

subsection \<open>The lookahead index\<close>

lemma lookaheadLoop_bounds:
  "lookaheadLoop pts lookahead cidx lidx = Inr l' \<Longrightarrow>
   lidx \<le> l' \<and> (lidx \<le> int (length pts) - 1 \<longrightarrow> l' \<le> int (length pts) - 1)"
proof (induction pts lookahead cidx lidx rule: lookaheadLoop.induct)
  case (1 pts lookahead cidx lidx)
  show ?case
  proof (cases "lidx < int (length pts) - 1")
    case False
    with "1.prems" show ?thesis by (simp add: lookaheadLoop.simps [of pts lookahead cidx lidx])
  next
    case True
    with "1.prems" obtain pl pc where g: "py_get pts lidx = Inr pl" "py_get pts cidx = Inr pc"
      by (auto simp: lookaheadLoop.simps [of pts lookahead cidx lidx] split: sum.splits)
    show ?thesis
    proof (cases "distance (pt_x pl) (pt_y pl) (pt_x pc) (pt_y pc) < lookahead")
      case False
      with True g "1.prems" show ?thesis
        by (simp add: lookaheadLoop.simps [of pts lookahead cidx lidx])
    next
      case d: True
      with True g "1.prems" have "lookaheadLoop pts lookahead cidx (lidx + 1) = Inr l'"
        by (simp add: lookaheadLoop.simps [of pts lookahead cidx lidx])
      from "1.IH" [OF True g(1) g(2) d this] True show ?thesis by auto
    qed
  qed
qed

lemma pursuitStep_li:
  assumes "pursuitStep pts lookahead noise st = Inr stp"
  shows "st_li st \<le> st_li (fst stp)
     \<and> (st_li st \<le> int (length pts) - 1 \<longrightarrow> st_li (fst stp) \<le> int (length pts) - 1)"
proof -
  from assms obtain cidx lidx where l: "lookaheadLoop pts lookahead cidx (st_li st) = Inr lidx"
    and s: "st_li (fst stp) = lidx"
    by (auto simp: pursuitStep_def Let_def split: sum.splits option.splits if_splits)
  from lookaheadLoop_bounds [OF l] s show ?thesis by simp
qed

lemma pursuitLoop_li:
  "pursuitLoop pts lookahead noise timestep st sim = Inr out \<Longrightarrow>
   st_li st \<le> int (length pts) - 1 \<Longrightarrow>
   \<exists>ext. out = sim @ ext \<and> sorted (st_li st # map (\<lambda>e. st_li (fst e)) ext)
      \<and> (\<forall>e \<in> set ext. st_li (fst e) \<le> int (length pts) - 1)"
proof (induction pts lookahead noise timestep st sim rule: pursuitLoop.induct)
  case (1 pts lookahead noise timestep st sim)
  from "1.prems"(1) obtain continue where c: "pursuitCond pts st = Inr continue"
    by (auto simp: pursuitLoop.simps [of pts lookahead noise timestep st sim] split: sum.splits)
  show ?case
  proof (cases "continue \<and> \<not> timestep > MAX_TIMESTEPS")
    case False
    with c "1.prems"(1) have "out = sim"
      by (auto simp: pursuitLoop.simps [of pts lookahead noise timestep st sim] split: if_splits)
    then show ?thesis by simp
  next
    case True
    with c "1.prems"(1) obtain stp where
      stp: "pursuitStep pts lookahead noise st = Inr stp"
      and rec: "pursuitLoop pts lookahead noise (timestep + 1) (fst stp) (sim @ [stp]) = Inr out"
      by (auto simp: pursuitLoop.simps [of pts lookahead noise timestep st sim] split: sum.splits)
    from pursuitStep_li [OF stp] "1.prems"(2)
    have mono: "st_li st \<le> st_li (fst stp)" and bnd: "st_li (fst stp) \<le> int (length pts) - 1"
      by auto
    from True have c1: "continue" and c2: "\<not> MAX_TIMESTEPS < timestep" by auto
    from "1.IH" [OF c _ c2 stp rec bnd] c1 obtain ext where
      e: "out = (sim @ [stp]) @ ext"
      and so: "sorted (st_li (fst stp) # map (\<lambda>e. st_li (fst e)) ext)"
      and b: "\<forall>e \<in> set ext. st_li (fst e) \<le> int (length pts) - 1"
      by auto
    show ?thesis
      apply (rule exI [of _ "stp # ext"])
      using e so b mono bnd by auto
  qed
qed

text \<open>
  Claim C6.  In every run of the pure pursuit simulation that returns, the lookahead
  index starts at 0, never decreases from one step to the next (the list of its values,
  one per appended simulation point, is sorted), and never exceeds the last trajectory
  index.
\<close>

theorem lookahead_index_monotone_bounded:
  assumes "pursuitRun pts lookahead noise = Inr sim"
  shows "sorted (0 # map (\<lambda>e. st_li (fst e)) sim)
     \<and> (\<forall>e \<in> set sim. st_li (fst e) \<le> int (length pts) - 1)"
proof -
  from assms obtain st0 where s0: "pursuitStart pts noise = Inr st0"
    and l: "pursuitLoop pts lookahead noise 0 st0 [] = Inr sim"
    by (auto simp: pursuitRun_def split: sum.splits)
  from s0 have li0: "st_li st0 = 0" and ne: "pts \<noteq> []"
    by (auto simp: pursuitStart_def py_get_def py_valid_def split: sum.splits option.splits if_splits)
  from ne have "st_li st0 \<le> int (length pts) - 1"
    using li0 by (cases pts) auto
  from pursuitLoop_li [OF l this] li0 show ?thesis by auto
qed

text \<open>A run of one step, in which the lookahead index goes from 0 to 1.\<close>

lemma pursuitStart_short: "pursuitStart trajShort noiseShort = Inr stShort0"
  by (simp add: pursuitStart_def trajShort_def noiseShort_def stShort0_def py_get_def
        py_valid_def py_pos_def)

lemma pursuitCond_short0: "pursuitCond trajShort stShort0 = Inr True"
  by (simp add: pursuitCond_def trajShort_def stShort0_def)

lemma lookaheadLoop_short: "lookaheadLoop trajShort 1 0 0 = Inr 1"
  by (simp add: lookaheadLoop.simps [of _ _ _ 0] lookaheadLoop.simps [of _ _ _ 1]
        trajShort_def py_get_def py_valid_def py_pos_def distance_def hypo_def)

lemma pursuitStep_short: "pursuitStep trajShort 1 noiseShort stShort0 = Inr (stShort1, simShort1)"
proof -
  let ?p1 = "\<lparr>pt_x = 0, pt_y = 0, pt_theta = Some 0, pt_curve = Some 0\<rparr>"
  have c: "findClosestPoint trajShort (st_x stShort0) (st_y stShort0) (st_ci stShort0)
             (st_ci stShort0 + 30) = Inr 0"
    by (simp add: findClosestPoint_def trajShort_def stShort0_def py_get_def py_valid_def
          py_pos_def closestLoop.simps)
  have l: "lookaheadLoop trajShort 1 0 (st_li stShort0) = Inr 1"
    using lookaheadLoop_short by (simp add: stShort0_def)
  have g1: "py_get trajShort 1 = Inr ?p1"
    by (simp add: trajShort_def py_get_def py_valid_def py_pos_def)
  have g0: "py_get trajShort 0 =
      Inr \<lparr>pt_x = 4 / 100, pt_y = 3 / 100, pt_theta = Some 0, pt_curve = Some 0\<rparr>"
    by (simp add: trajShort_def py_get_def py_valid_def py_pos_def)
  have m: "hypo ((pt_x ?p1 - st_x stShort0) * K_P_TRANS) ((pt_y ?p1 - st_y stShort0) * K_P_TRANS)
             = 63 / 2"
    by (rule hypo_eq) (simp_all add: stShort0_def K_P_TRANS_def)
  show ?thesis
    unfolding pursuitStep_def
    apply (simp only: c sum.case)
    apply (simp only: l sum.case)
    apply (simp only: g1 g0 sum.case Let_def m)
    apply (simp add: stShort0_def stShort1_def simShort1_def K_P_TRANS_def K_P_ROT_def
          MAX_SPEED_def MAX_TRANS_ACCEL_def MAX_ROT_ACCEL_def STEP_TIME_def pymod_def
          clamp_def noiseShort_def)
    done
qed

lemma hypo_345: "hypo (4 / 5) (3 / 5) = 1"
  by (rule hypo_eq) simp_all

lemma pursuitCond_short1: "pursuitCond trajShort stShort1 = Inr False"
proof -
  have "py_get trajShort (- 1) = Inr \<lparr>pt_x = 0, pt_y = 0, pt_theta = Some 0, pt_curve = Some 0\<rparr>"
    by (simp add: trajShort_def py_get_def py_valid_def py_pos_def)
  moreover have "int (length trajShort) - 1 = 1" by (simp add: trajShort_def)
  ultimately show ?thesis
    by (simp add: pursuitCond_def stShort1_def distance_def hypo_345 STOP_DISTANCE_THRESHOLD_def)
qed

lemma pursuitRun_short: "pursuitRun trajShort 1 noiseShort = Inr [(stShort1, simShort1)]"
  by (simp add: pursuitRun_def pursuitStart_short pursuitLoop.simps [of _ _ _ _ stShort0]
        pursuitLoop.simps [of _ _ _ _ stShort1] pursuitCond_short0 pursuitCond_short1
        pursuitStep_short MAX_TIMESTEPS_def)

theorem lookahead_index_monotone_bounded_witness:
  "pursuitRun trajShort 1 noiseShort = Inr [(stShort1, simShort1)]
   \<and> sorted (0 # map (\<lambda>e. st_li (fst e)) [(stShort1, simShort1)])
   \<and> st_li (fst (stShort1, simShort1)) \<le> int (length trajShort) - 1
   \<and> st_li stShort1 = 1"
  using lookahead_index_monotone_bounded [OF pursuitRun_short] pursuitRun_short
  by (simp add: stShort1_def)

subsection \<open>The curvature pass\<close>

lemma curveValue_cong:
  "pt_x a = pt_x a' \<Longrightarrow> pt_y a = pt_y a' \<Longrightarrow> pt_x b = pt_x b' \<Longrightarrow> pt_y b = pt_y b' \<Longrightarrow>
   pt_x c = pt_x c' \<Longrightarrow> pt_y c = pt_y c' \<Longrightarrow> curveValue a b c = curveValue a' b' c'"
  by (simp add: curveValue_def curveAngle_def)

lemma curveLoop_length [simp]: "length (curveLoop idxs pts) = length pts"
  by (induction idxs arbitrary: pts) auto

lemma nth_update_x: "pt_x (pts[i := (pts ! i)\<lparr>pt_curve := v\<rparr>] ! k) = pt_x (pts ! k)"
  by (cases "k = i"; cases "i < length pts") (auto simp: list_update_beyond)

lemma nth_update_y: "pt_y (pts[i := (pts ! i)\<lparr>pt_curve := v\<rparr>] ! k) = pt_y (pts ! k)"
  by (cases "k = i"; cases "i < length pts") (auto simp: list_update_beyond)

lemma curveLoop_nth:
  "j < length pts \<Longrightarrow>
   curveLoop idxs pts ! j =
     (pts ! j)\<lparr>pt_curve := (if j \<in> set idxs
                              then Some (curveValue (pts ! (j - 1)) (pts ! j) (pts ! (j + 1)))
                              else pt_curve (pts ! j))\<rparr>"
proof (induction idxs arbitrary: pts)
  case Nil
  then show ?case by simp
next
  case (Cons i rest)
  let ?v = "Some (curveValue (pts ! (i - 1)) (pts ! i) (pts ! (i + 1)))"
  let ?pts' = "pts[i := (pts ! i)\<lparr>pt_curve := ?v\<rparr>]"
  have cv: "curveValue (?pts' ! (j - 1)) (?pts' ! j) (?pts' ! (j + 1))
          = curveValue (pts ! (j - 1)) (pts ! j) (pts ! (j + 1))"
    by (rule curveValue_cong) (simp_all only: nth_update_x nth_update_y)
  from Cons.prems have j: "j < length ?pts'" by simp
  show ?case
    using Cons.IH [OF j] Cons.prems
    by (simp only: curveLoop.simps cv) (cases "j = i", auto)
qed

lemma setCurve_first: "pts \<noteq> [] \<Longrightarrow> setCurve pts 0 v = Inr (pts[0 := (pts ! 0)\<lparr>pt_curve := Some v\<rparr>])"
  by (simp add: setCurve_def py_valid_def py_pos_def)

lemma setCurve_last:
  "pts \<noteq> [] \<Longrightarrow>
   setCurve pts (- 1) v = Inr (pts[length pts - 1 := (pts ! (length pts - 1))\<lparr>pt_curve := Some v\<rparr>])"
proof -
  assume "pts \<noteq> []"
  then have "0 < length pts" by simp
  then have "nat (int (length pts) - 1) = length pts - 1" by linarith
  moreover from \<open>0 < length pts\<close> have "py_valid pts (- 1)"
    unfolding py_valid_def by linarith
  ultimately show ?thesis
    by (simp add: setCurve_def py_pos_def)
qed

lemma curvaturePass_exact:
  assumes "pts \<noteq> []"
  shows "\<exists>pts'. curvaturePass pts = Inr pts' \<and> length pts' = length pts
     \<and> (\<forall>i < length pts. pts' ! i =
           (pts ! i)\<lparr>pt_curve := Some (if i = 0 \<or> i = length pts - 1 then 0
                      else curveValue (pts ! (i - 1)) (pts ! i) (pts ! (i + 1)))\<rparr>)"
proof -
  let ?n = "length pts"
  let ?p1 = "pts[0 := (pts ! 0)\<lparr>pt_curve := Some 0\<rparr>]"
  let ?p2 = "?p1[?n - 1 := (?p1 ! (?n - 1))\<lparr>pt_curve := Some 0\<rparr>]"
  from assms have n: "0 < ?n" by simp
  have ne1: "?p1 \<noteq> []" using assms by simp
  have cp: "curvaturePass pts = Inr (curveLoop [1..<?n - 1] ?p2)"
    using setCurve_first [OF assms, of 0] setCurve_last [OF ne1, of 0]
    by (simp add: curvaturePass_def)
  have "curveLoop [1..<?n - 1] ?p2 ! i =
           (pts ! i)\<lparr>pt_curve := Some (if i = 0 \<or> i = ?n - 1 then 0
                      else curveValue (pts ! (i - 1)) (pts ! i) (pts ! (i + 1)))\<rparr>"
    if i: "i < ?n" for i
  proof -
    have xs: "pt_x (?p2 ! k) = pt_x (pts ! k)" "pt_y (?p2 ! k) = pt_y (pts ! k)" for k
      by (simp_all only: nth_update_x nth_update_y)
    have cv: "curveValue (?p2 ! (i - 1)) (?p2 ! i) (?p2 ! (i + 1))
          = curveValue (pts ! (i - 1)) (pts ! i) (pts ! (i + 1))"
      by (rule curveValue_cong) (simp_all only: xs)
    from i have i2: "i < length ?p2" by simp
    show ?thesis
      unfolding curveLoop_nth [OF i2] cv
      using i n by (cases "i = 0"; cases "i = ?n - 1") auto
  qed
  with cp show ?thesis by simp
qed


lemma curveValue_normalized:
  "- pi \<le> curveAngle a b c \<Longrightarrow> curveValue a b c = \<bar>normalizeAngle (curveAngle a b c)\<bar>"
  by (auto simp: curveValue_def normalizeAngle_def Let_def)

lemma curvaturePass_positions_only:
  assumes "pts \<noteq> []" and "map pt_x qts = map pt_x pts" and "map pt_y qts = map pt_y pts"
    and "curvaturePass pts = Inr pts'"
  shows "\<exists>qts'. curvaturePass qts = Inr qts' \<and> map pt_curve qts' = map pt_curve pts'"
proof -
  from assms(2) have len: "length qts = length pts"
    by (metis length_map)
  with assms(1) have qne: "qts \<noteq> []" by auto
  have x: "pt_x (qts ! k) = pt_x (pts ! k)" if "k < length pts" for k
    using that len assms(2) by (metis nth_map)
  have y: "pt_y (qts ! k) = pt_y (pts ! k)" if "k < length pts" for k
    using that len assms(3) by (metis nth_map)
  from curvaturePass_exact [OF assms(1)] assms(4) have
    p: "length pts' = length pts"
       "\<And>i. i < length pts \<Longrightarrow> pts' ! i =
           (pts ! i)\<lparr>pt_curve := Some (if i = 0 \<or> i = length pts - 1 then 0
                      else curveValue (pts ! (i - 1)) (pts ! i) (pts ! (i + 1)))\<rparr>"
    by auto
  from curvaturePass_exact [OF qne] obtain qts' where
    q: "curvaturePass qts = Inr qts'" "length qts' = length qts"
       "\<And>i. i < length qts \<Longrightarrow> qts' ! i =
           (qts ! i)\<lparr>pt_curve := Some (if i = 0 \<or> i = length qts - 1 then 0
                      else curveValue (qts ! (i - 1)) (qts ! i) (qts ! (i + 1)))\<rparr>"
    by auto
  have "pt_curve (qts' ! i) = pt_curve (pts' ! i)" if i: "i < length pts" for i
  proof (cases "i = 0 \<or> i = length pts - 1")
    case True
    with i p(2) [OF i] q(3) [of i] len show ?thesis by auto
  next
    case False
    with i have b: "i - 1 < length pts" "i + 1 < length pts" by auto
    have "curveValue (qts ! (i - 1)) (qts ! i) (qts ! (i + 1))
        = curveValue (pts ! (i - 1)) (pts ! i) (pts ! (i + 1))"
      using x [OF b(1)] y [OF b(1)] x [OF i] y [OF i] x [OF b(2)] y [OF b(2)]
      by (rule curveValue_cong)
    with False i p(2) [OF i] q(3) [of i] len show ?thesis by auto
  qed
  then have "map pt_curve qts' = map pt_curve pts'"
    using p(1) q(2) len by (auto simp: list_eq_iff_nth_eq)
  with q(1) show ?thesis by blast
qed

text \<open>
  Claim C4, as far as the code decides it by design.  On a trajectory of at least two
  points the curvature pass returns; it gives the first and the last point curvature 0;
  it gives an interior point \<open>i\<close> the absolute value of the angle \<open>curveAngle\<close>, the
  direction of the vector from point \<open>i - 1\<close> to point \<open>i + 1\<close> against the direction of
  the vector from point \<open>i - 1\<close> to point \<open>i\<close>, normalised into \<open>(-pi, pi]\<close>, whenever that
  angle is at least \<open>-pi\<close>; and the curvatures are the same for any trajectory with the
  same positions.
\<close>

theorem curvature_pass_values:
  assumes "2 \<le> length pts"
  shows "\<exists>pts'. curvaturePass pts = Inr pts' \<and> length pts' = length pts
     \<and> pt_curve (pts' ! 0) = Some 0 \<and> pt_curve (pts' ! (length pts - 1)) = Some 0
     \<and> (\<forall>i. 0 < i \<and> i + 1 < length pts
             \<and> - pi \<le> curveAngle (pts ! (i - 1)) (pts ! i) (pts ! (i + 1))
           \<longrightarrow> pt_curve (pts' ! i)
                 = Some \<bar>normalizeAngle (curveAngle (pts ! (i - 1)) (pts ! i) (pts ! (i + 1)))\<bar>)
     \<and> (\<forall>qts. map pt_x qts = map pt_x pts \<and> map pt_y qts = map pt_y pts
           \<longrightarrow> (\<exists>qts'. curvaturePass qts = Inr qts' \<and> map pt_curve qts' = map pt_curve pts'))"
proof -
  from assms have ne: "pts \<noteq> []" by auto
  from curvaturePass_exact [OF ne] obtain pts' where
    cp: "curvaturePass pts = Inr pts'" and len: "length pts' = length pts"
    and nth: "\<And>i. i < length pts \<Longrightarrow> pts' ! i =
           (pts ! i)\<lparr>pt_curve := Some (if i = 0 \<or> i = length pts - 1 then 0
                      else curveValue (pts ! (i - 1)) (pts ! i) (pts ! (i + 1)))\<rparr>"
    by auto
  from assms ne nth [of 0] have first: "pt_curve (pts' ! 0) = Some 0" by simp
  from assms ne nth [of "length pts - 1"] have lst: "pt_curve (pts' ! (length pts - 1)) = Some 0"
    by simp
  have inner: "pt_curve (pts' ! i)
        = Some \<bar>normalizeAngle (curveAngle (pts ! (i - 1)) (pts ! i) (pts ! (i + 1)))\<bar>"
    if "0 < i" "i + 1 < length pts" "- pi \<le> curveAngle (pts ! (i - 1)) (pts ! i) (pts ! (i + 1))"
    for i
  proof -
    from that have i: "i < length pts" and ni: "\<not> (i = 0 \<or> i = length pts - 1)" by auto
    from nth [OF i] ni have "pts' ! i =
        (pts ! i)\<lparr>pt_curve := Some (curveValue (pts ! (i - 1)) (pts ! i) (pts ! (i + 1)))\<rparr>"
      by (simp only: if_False)
    then show ?thesis
      by (simp only: curveValue_normalized [OF that(3)]) simp
  qed
  from cp len first lst inner curvaturePass_positions_only [OF ne _ _ cp]
  show ?thesis by blast
qed

lemma atan2_diag: "atan2 1 1 = pi / 4"
  by (simp add: atan2_def arctan_one)

lemma atan2_east: "atan2 0 1 = 0"
  by (simp add: atan2_def)

lemma atan2_north: "atan2 1 0 = pi / 2"
  by (simp add: atan2_def)

lemma curveAngle_corner: "curveAngle (mkPoint 0 0) (mkPoint 1 0) (mkPoint 1 1) = pi / 4"
  by (simp add: curveAngle_def mkPoint_def atan2_diag atan2_east)

lemma turnAngle_corner: "turnAngle (mkPoint 0 0) (mkPoint 1 0) (mkPoint 1 1) = pi / 2"
  by (simp add: turnAngle_def mkPoint_def atan2_north atan2_east)

lemma curvaturePass_corner:
  "curvaturePass trajCorner =
     Inr [(mkPoint 0 0)\<lparr>pt_curve := Some 0\<rparr>, (mkPoint 1 0)\<lparr>pt_curve := Some (pi / 4)\<rparr>,
          (mkPoint 1 1)\<lparr>pt_curve := Some 0\<rparr>]"
proof -
  have "curveValue (mkPoint 0 0) (mkPoint 1 0) (mkPoint 1 1) = pi / 4"
    by (simp add: curveValue_def curveAngle_corner Let_def)
  moreover have "curveValue \<lparr>pt_x = 0, pt_y = 0, pt_theta = None, pt_curve = Some 0\<rparr> (mkPoint 1 0)
      \<lparr>pt_x = 1, pt_y = 1, pt_theta = None, pt_curve = Some 0\<rparr>
      = curveValue (mkPoint 0 0) (mkPoint 1 0) (mkPoint 1 1)"
    by (rule curveValue_cong) (simp_all add: mkPoint_def)
  ultimately show ?thesis
    by (simp add: trajCorner_def curvaturePass_def setCurve_def py_valid_def py_pos_def
          upt_rec mkPoint_def)
qed

text \<open>
  Claim C4 as stated fails: at the corner of \<open>trajCorner\<close> the vector from point 0 to
  point 1 and the vector from point 1 to point 2 enclose the turn angle \<open>pi / 2\<close>, and the
  curvature stored for point 1 is \<open>pi / 4\<close>.
\<close>

theorem curvature_uses_chord_not_next_vector:
  "curvaturePass trajCorner =
     Inr [(mkPoint 0 0)\<lparr>pt_curve := Some 0\<rparr>, (mkPoint 1 0)\<lparr>pt_curve := Some (pi / 4)\<rparr>,
          (mkPoint 1 1)\<lparr>pt_curve := Some 0\<rparr>]
   \<and> \<bar>normalizeAngle (turnAngle (trajCorner ! 0) (trajCorner ! 1) (trajCorner ! 2))\<bar> = pi / 2"
proof -
  have "\<bar>normalizeAngle (turnAngle (mkPoint 0 0) (mkPoint 1 0) (mkPoint 1 1))\<bar> = pi / 2"
    by (simp add: turnAngle_corner normalizeAngle_def not_le)
  then show ?thesis
    using curvaturePass_corner by (simp add: trajCorner_def)
qed

theorem curvature_pass_values_witness:
  "2 \<le> length trajCorner
   \<and> 0 < (1::nat) \<and> 1 + 1 < length trajCorner
   \<and> - pi \<le> curveAngle (trajCorner ! (1 - 1)) (trajCorner ! 1) (trajCorner ! (1 + 1))
   \<and> (\<exists>pts'. curvaturePass trajCorner = Inr pts' \<and> length pts' = length trajCorner
        \<and> pt_curve (pts' ! 0) = Some 0 \<and> pt_curve (pts' ! (length trajCorner - 1)) = Some 0
        \<and> pt_curve (pts' ! 1) = Some (pi / 4))"
proof -
  have a: "2 \<le> length trajCorner" by (simp add: trajCorner_def)
  have b: "curveAngle (trajCorner ! (1 - 1)) (trajCorner ! 1) (trajCorner ! (1 + 1)) = pi / 4"
    using curveAngle_corner by (simp add: trajCorner_def)
  have c: "1 + 1 < length trajCorner" by (simp add: trajCorner_def)
  from curvature_pass_values [OF a] obtain pts' where
    p: "curvaturePass trajCorner = Inr pts'" "length pts' = length trajCorner"
       "pt_curve (pts' ! 0) = Some 0" "pt_curve (pts' ! (length trajCorner - 1)) = Some 0"
    and q: "\<And>i. 0 < i \<Longrightarrow> i + 1 < length trajCorner \<Longrightarrow>
         - pi \<le> curveAngle (trajCorner ! (i - 1)) (trajCorner ! i) (trajCorner ! (i + 1)) \<Longrightarrow>
         pt_curve (pts' ! i) =
           Some \<bar>normalizeAngle (curveAngle (trajCorner ! (i - 1)) (trajCorner ! i) (trajCorner ! (i + 1)))\<bar>"
    by blast
  have d: "- pi \<le> curveAngle (trajCorner ! (1 - 1)) (trajCorner ! 1) (trajCorner ! (1 + 1))"
    unfolding b by simp
  have "\<bar>normalizeAngle (pi / 4)\<bar> = pi / 4"
    by (simp add: normalizeAngle_def not_le)
  with q [OF _ c d] have "pt_curve (pts' ! 1) = Some (pi / 4)"
    unfolding b by simp
  with a c d p show ?thesis by blast
qed


text \<open>The branch that is missing: an angle below \<open>-pi\<close> is not raised by \<open>2 * pi\<close>, and
  the curvature stored is \<open>3 * pi / 2\<close> where the two directions enclose \<open>pi / 2\<close>.\<close>

lemma curveValue_below_minus_pi:
  "curveValue (trajCut ! 0) (trajCut ! 1) (trajCut ! 2) = 3 * pi / 2
   \<and> \<bar>normalizeAngle (curveAngle (trajCut ! 0) (trajCut ! 1) (trajCut ! 2))\<bar> = pi / 2"
proof -
  have a: "atan2 (- 1) (- 1) = pi / 4 - pi"
    by (simp add: atan2_def arctan_one)
  have b: "atan2 1 (- 1) = pi - pi / 4"
    by (simp add: atan2_def arctan_minus arctan_one)
  have c: "curveAngle (trajCut ! 0) (trajCut ! 1) (trajCut ! 2) = - (3 * pi / 2)"
    by (simp add: trajCut_def curveAngle_def mkPoint_def a b)
  have n1: "\<not> pi < - (3 * pi / 2)" and n2: "- (3 * pi / 2) \<le> - pi"
    using pi_gt_zero by linarith+
  have v1: "\<bar>- (3 * pi / 2)\<bar> = 3 * pi / 2" and v2: "\<bar>- (3 * pi / 2) + 2 * pi\<bar> = pi / 2"
    using pi_gt_zero by linarith+
  show ?thesis
    unfolding curveValue_def normalizeAngle_def Let_def c
    by (simp only: n1 n2 if_True if_False v1 v2)
qed

section \<open>Properties of the heading pass\<close>

lemma setTheta_nonneg:
  assumes "setTheta pts k v = Inr pts'" and "0 \<le> k"
  shows "k < int (length pts) \<and> pts' = pts[nat k := (pts ! nat k)\<lparr>pt_theta := Some v\<rparr>]"
  using assms by (auto simp: setTheta_def py_valid_def py_pos_def split: if_splits)

lemma setTheta_nth:
  assumes "setTheta pts k v = Inr pts'" and "0 \<le> k" and "j < length pts"
  shows "pt_theta (pts' ! j) = (if int j = k then Some v else pt_theta (pts ! j))"
proof -
  from setTheta_nonneg [OF assms(1,2)] have kk: "k < int (length pts)"
    and eq: "pts' = pts[nat k := (pts ! nat k)\<lparr>pt_theta := Some v\<rparr>]" by auto
  from kk assms(2) have k: "nat k < length pts" by linarith
  from assms(2) have "(int j = k) = (j = nat k)" by auto
  with eq k assms(3) show ?thesis by (auto simp: nth_list_update)
qed

lemma setTheta_length:
  "setTheta pts k v = Inr pts' \<Longrightarrow> length pts' = length pts"
  by (auto simp: setTheta_def split: if_splits)

lemma thetaSpan_result:
  assumes "thetaSpan i1 t1 i2 t2 idxs pts = Inr pts'" and "0 \<le> i1"
  shows "length pts' = length pts
     \<and> (\<forall>i \<in> set idxs. i1 + int i < int (length pts))
     \<and> (idxs \<noteq> [] \<longrightarrow> i2 \<noteq> i1)
     \<and> (\<forall>j < length pts. pt_theta (pts' ! j) =
            (if \<exists>i \<in> set idxs. int j = i1 + int i then Some (linTheta i1 t1 i2 t2 (int j))
             else pt_theta (pts ! j)))"
  using assms
proof (induction idxs arbitrary: pts)
  case Nil
  then show ?case by simp
next
  case (Cons i rest)
  let ?v = "t1 + (theta2adjusted t1 t2 - t1) * (real i / real_of_int (i2 - i1))"
  from Cons.prems(1) have ne: "i2 \<noteq> i1"
    by (auto split: if_splits)
  with Cons.prems(1) obtain pts1 where
    s: "setTheta pts (i1 + int i) ?v = Inr pts1"
    and r: "thetaSpan i1 t1 i2 t2 rest pts1 = Inr pts'"
    by (auto split: sum.splits)
  from Cons.prems(2) have k0: "0 \<le> i1 + int i" by simp
  note l1 = setTheta_length [OF s]
  from setTheta_nonneg [OF s k0] have kb: "i1 + int i < int (length pts)" by simp
  from Cons.IH [OF r Cons.prems(2)] l1 have
    len: "length pts' = length pts"
    and rb: "\<forall>i \<in> set rest. i1 + int i < int (length pts)"
    and th: "\<And>j. j < length pts \<Longrightarrow> pt_theta (pts' ! j) =
            (if \<exists>i \<in> set rest. int j = i1 + int i then Some (linTheta i1 t1 i2 t2 (int j))
             else pt_theta (pts1 ! j))"
    by auto
  have v: "linTheta i1 t1 i2 t2 (i1 + int i) = ?v"
    by (simp add: linTheta_def)
  have "pt_theta (pts' ! j) =
            (if \<exists>i' \<in> set (i # rest). int j = i1 + int i' then Some (linTheta i1 t1 i2 t2 (int j))
             else pt_theta (pts ! j))" if j: "j < length pts" for j
    using th [OF j] setTheta_nth [OF s k0 j] v by auto
  with len rb kb ne show ?case by auto
qed

lemma thetaSpan_range:
  assumes "thetaSpan i1 t1 i2 t2 [0..<nat (i2 - i1 + 1)] pts = Inr pts'"
    and "0 \<le> i1" and "i1 \<le> i2"
  shows "i1 < i2 \<and> i2 < int (length pts) \<and> length pts' = length pts
     \<and> (\<forall>j < length pts. pt_theta (pts' ! j) =
            (if i1 \<le> int j \<and> int j \<le> i2 then Some (linTheta i1 t1 i2 t2 (int j))
             else pt_theta (pts ! j)))"
proof -
  let ?idxs = "[0..<nat (i2 - i1 + 1)]"
  from assms(3) have ne: "?idxs \<noteq> []" by simp
  from assms(3) have mem: "nat (i2 - i1) \<in> set ?idxs" by simp
  have iff: "(\<exists>i \<in> set ?idxs. int j = i1 + int i) = (i1 \<le> int j \<and> int j \<le> i2)" for j
  proof
    assume "\<exists>i \<in> set ?idxs. int j = i1 + int i"
    then show "i1 \<le> int j \<and> int j \<le> i2" by auto
  next
    assume a: "i1 \<le> int j \<and> int j \<le> i2"
    then have "nat (int j - i1) \<in> set ?idxs" "int j = i1 + int (nat (int j - i1))" by auto
    then show "\<exists>i \<in> set ?idxs. int j = i1 + int i" by blast
  qed
  from thetaSpan_result [OF assms(1,2)] ne mem assms(3) have
    "i2 \<noteq> i1" "i1 + int (nat (i2 - i1)) < int (length pts)" "length pts' = length pts"
    "\<forall>j < length pts. pt_theta (pts' ! j) =
            (if \<exists>i \<in> set ?idxs. int j = i1 + int i then Some (linTheta i1 t1 i2 t2 (int j))
             else pt_theta (pts ! j))"
    by blast+
  with assms(3) show ?thesis by (simp only: iff) auto
qed

lemma thetaTail_result:
  assumes "thetaTail t ks pts = Inr pts'" and "\<forall>k \<in> set ks. 0 \<le> k"
  shows "length pts' = length pts
     \<and> (\<forall>j < length pts. pt_theta (pts' ! j) =
            (if int j \<in> set ks then Some t else pt_theta (pts ! j)))"
  using assms
proof (induction ks arbitrary: pts)
  case Nil
  then show ?case by simp
next
  case (Cons k rest)
  from Cons.prems(1) obtain pts1 where
    s: "setTheta pts k t = Inr pts1" and r: "thetaTail t rest pts1 = Inr pts'"
    by (auto split: sum.splits)
  from Cons.prems(2) have k0: "0 \<le> k" and r0: "\<forall>k \<in> set rest. 0 \<le> k" by auto
  note l1 = setTheta_length [OF s]
  from Cons.IH [OF r r0] l1 have len: "length pts' = length pts"
    and th: "\<And>j. j < length pts \<Longrightarrow> pt_theta (pts' ! j) =
            (if int j \<in> set rest then Some t else pt_theta (pts1 ! j))"
    by auto
  have "pt_theta (pts' ! j) = (if int j \<in> set (k # rest) then Some t else pt_theta (pts ! j))"
    if j: "j < length pts" for j
    using th [OF j] setTheta_nth [OF s k0 j] by auto
  with len show ?case by simp
qed

lemma thetaAnchors_result:
  assumes "thetaAnchors i1 t1 rest pts = Inr (iL, tL, pts')"
    and "0 \<le> i1" and "sorted (i1 # map fst rest)"
  shows "length pts' = length pts \<and> (iL, tL) = last ((i1, t1) # rest) \<and> i1 \<le> iL
     \<and> (\<forall>j < length pts. int j < i1 \<longrightarrow> pt_theta (pts' ! j) = pt_theta (pts ! j))
     \<and> (\<forall>k < length rest.
           fst (((i1, t1) # rest) ! k) < fst (rest ! k) \<and> fst (rest ! k) \<le> iL
           \<and> fst (rest ! k) < int (length pts)
           \<and> (\<forall>j. fst (((i1, t1) # rest) ! k) \<le> j \<and> j < fst (rest ! k) \<longrightarrow>
                 pt_theta (pts' ! nat j) =
                   Some (linTheta (fst (((i1, t1) # rest) ! k)) (snd (((i1, t1) # rest) ! k))
                           (fst (rest ! k)) (snd (rest ! k)) j)))"
  using assms
proof (induction rest arbitrary: i1 t1 pts)
  case Nil
  then show ?case by simp
next
  case (Cons a rest)
  obtain i2 t2 where a: "a = (i2, t2)" by (cases a)
  from Cons.prems(1) a obtain pts1 where
    sp: "thetaSpan i1 t1 i2 t2 [0..<nat (i2 - i1 + 1)] pts = Inr pts1"
    and an: "thetaAnchors i2 t2 rest pts1 = Inr (iL, tL, pts')"
    by (auto split: sum.splits)
  from Cons.prems(3) a have le: "i1 \<le> i2" and so: "sorted (i2 # map fst rest)"
    by auto
  from thetaSpan_range [OF sp Cons.prems(2) le] have
    lt: "i1 < i2" and ub: "i2 < int (length pts)" and l1: "length pts1 = length pts"
    and th1: "\<And>j. j < length pts \<Longrightarrow> pt_theta (pts1 ! j) =
            (if i1 \<le> int j \<and> int j \<le> i2 then Some (linTheta i1 t1 i2 t2 (int j))
             else pt_theta (pts ! j))"
    by auto
  from lt Cons.prems(2) have i20: "0 \<le> i2" by simp
  from Cons.IH [OF an i20 so] l1 have
    len: "length pts' = length pts" and lastA: "(iL, tL) = last ((i2, t2) # rest)"
    and i2L: "i2 \<le> iL"
    and below: "\<And>j. j < length pts \<Longrightarrow> int j < i2 \<Longrightarrow> pt_theta (pts' ! j) = pt_theta (pts1 ! j)"
    and pairs: "\<And>k. k < length rest \<Longrightarrow>
           fst (((i2, t2) # rest) ! k) < fst (rest ! k) \<and> fst (rest ! k) \<le> iL
           \<and> fst (rest ! k) < int (length pts)
           \<and> (\<forall>j. fst (((i2, t2) # rest) ! k) \<le> j \<and> j < fst (rest ! k) \<longrightarrow>
                 pt_theta (pts' ! nat j) =
                   Some (linTheta (fst (((i2, t2) # rest) ! k)) (snd (((i2, t2) # rest) ! k))
                           (fst (rest ! k)) (snd (rest ! k)) j))"
    by auto
  have c1: "length pts' = length pts" by (rule len)
  have c2: "(iL, tL) = last ((i1, t1) # a # rest)" using lastA a by simp
  have c3: "i1 \<le> iL" using lt i2L by simp
  have c4: "pt_theta (pts' ! j) = pt_theta (pts ! j)" if "j < length pts" "int j < i1" for j
    using below [of j] th1 [of j] that lt by simp
  have first: "pt_theta (pts' ! nat j) = Some (linTheta i1 t1 i2 t2 j)"
    if "i1 \<le> j" "j < i2" for j
  proof -
    from that Cons.prems(2) ub have n: "nat j < length pts" "int (nat j) = j" by auto
    from below [of "nat j"] th1 [of "nat j"] n that show ?thesis by simp
  qed
  have c5: "fst (((i1, t1) # a # rest) ! k) < fst ((a # rest) ! k) \<and> fst ((a # rest) ! k) \<le> iL
           \<and> fst ((a # rest) ! k) < int (length pts)
           \<and> (\<forall>j. fst (((i1, t1) # a # rest) ! k) \<le> j \<and> j < fst ((a # rest) ! k) \<longrightarrow>
                 pt_theta (pts' ! nat j) =
                   Some (linTheta (fst (((i1, t1) # a # rest) ! k)) (snd (((i1, t1) # a # rest) ! k))
                           (fst ((a # rest) ! k)) (snd ((a # rest) ! k)) j))"
    if k: "k < length (a # rest)" for k
  proof (cases k)
    case 0
    with a lt i2L ub first show ?thesis by simp
  next
    case (Suc k')
    with k have "k' < length rest" by simp
    from pairs [OF this] Suc a show ?thesis by simp
  qed
  from c1 c2 c3 c4 c5 show ?case by blast
qed

lemma theta2adjusted_cases:
  "theta2adjusted t1 t2 = t2 \<or> theta2adjusted t1 t2 = t2 - 2 * pi
     \<or> theta2adjusted t1 t2 = t2 + 2 * pi"
  by (simp add: theta2adjusted_def)

lemma theta2adjusted_bound:
  "\<bar>t2 - t1\<bar> \<le> 3 * pi \<Longrightarrow> \<bar>theta2adjusted t1 t2 - t1\<bar> \<le> pi"
  by (auto simp: theta2adjusted_def abs_le_iff)

text \<open>
  Claim C3, as the code has it.  When the heading pass returns on anchors whose indices
  are in ascending order, then for every pair of consecutive anchors \<open>(i1, theta1)\<close> and
  \<open>(i2, theta2)\<close>: \<open>i1 < i2\<close>; the adjusted heading is \<open>theta2\<close>, \<open>theta2 - 2 * pi\<close> or
  \<open>theta2 + 2 * pi\<close>; it is at most \<open>pi\<close> away from \<open>theta1\<close> when the two headings are at
  most \<open>3 * pi\<close> apart; and every point from \<open>i1\<close> up to, but not including, \<open>i2\<close> has the
  linearly interpolated heading.  Every point from the last anchor on, that anchor's
  point included, has the heading of the last anchor.  So each anchor's own point has
  the anchor's heading, not the adjusted one.
\<close>

theorem heading_interpolation:
  assumes "interpolateTheta known pts = Inr pts'" and "sorted (map fst known)"
  shows "(\<forall>k. k + 1 < length known \<longrightarrow>
            fst (known ! k) < fst (known ! (k + 1))
          \<and> (theta2adjusted (snd (known ! k)) (snd (known ! (k + 1))) = snd (known ! (k + 1))
             \<or> theta2adjusted (snd (known ! k)) (snd (known ! (k + 1))) = snd (known ! (k + 1)) - 2 * pi
             \<or> theta2adjusted (snd (known ! k)) (snd (known ! (k + 1))) = snd (known ! (k + 1)) + 2 * pi)
          \<and> (\<bar>snd (known ! (k + 1)) - snd (known ! k)\<bar> \<le> 3 * pi \<longrightarrow>
               \<bar>theta2adjusted (snd (known ! k)) (snd (known ! (k + 1))) - snd (known ! k)\<bar> \<le> pi)
          \<and> (\<forall>j. fst (known ! k) \<le> j \<and> j < fst (known ! (k + 1)) \<longrightarrow>
                pt_theta (pts' ! nat j) =
                  Some (linTheta (fst (known ! k)) (snd (known ! k))
                          (fst (known ! (k + 1))) (snd (known ! (k + 1))) j)))
     \<and> (\<forall>j. fst (last known) \<le> j \<and> j < int (length pts') \<longrightarrow>
            pt_theta (pts' ! nat j) = Some (snd (last known)))"
proof -
  from assms(1) obtain t1 rest where kn: "known = (0, t1) # rest"
    by (auto simp: interpolateTheta_def split: list.splits if_splits)
  with assms(1) obtain iL tL pts1 where
    an: "thetaAnchors 0 t1 rest pts = Inr (iL, tL, pts1)"
    and tl: "thetaTail tL [iL..int (length pts1) - 1] pts1 = Inr pts'"
    by (auto simp: interpolateTheta_def split: sum.splits)
  from assms(2) kn have so: "sorted (0 # map fst rest)" by simp
  from thetaAnchors_result [OF an _ so] have
    l1: "length pts1 = length pts" and lastA: "(iL, tL) = last known" and iL0: "0 \<le> iL"
    and pairs: "\<And>k. k < length rest \<Longrightarrow>
           fst (known ! k) < fst (rest ! k) \<and> fst (rest ! k) \<le> iL
           \<and> fst (rest ! k) < int (length pts)
           \<and> (\<forall>j. fst (known ! k) \<le> j \<and> j < fst (rest ! k) \<longrightarrow>
                 pt_theta (pts1 ! nat j) =
                   Some (linTheta (fst (known ! k)) (snd (known ! k))
                           (fst (rest ! k)) (snd (rest ! k)) j))"
    unfolding kn by auto
  from iL0 have "\<forall>k \<in> set [iL..int (length pts1) - 1]. 0 \<le> k" by auto
  from thetaTail_result [OF tl this] have
    len: "length pts' = length pts1"
    and th: "\<And>j. j < length pts1 \<Longrightarrow> pt_theta (pts' ! j) =
            (if int j \<in> set [iL..int (length pts1) - 1] then Some tL else pt_theta (pts1 ! j))"
    by auto
  have lo: "0 \<le> fst (known ! k)" if "k < length known" for k
  proof -
    from that have "fst (known ! k) \<in> set (map fst known)"
      by (metis length_map nth_map nth_mem)
    with so kn show ?thesis by auto
  qed
  have A: "fst (known ! k) < fst (known ! (k + 1))
          \<and> (theta2adjusted (snd (known ! k)) (snd (known ! (k + 1))) = snd (known ! (k + 1))
             \<or> theta2adjusted (snd (known ! k)) (snd (known ! (k + 1))) = snd (known ! (k + 1)) - 2 * pi
             \<or> theta2adjusted (snd (known ! k)) (snd (known ! (k + 1))) = snd (known ! (k + 1)) + 2 * pi)
          \<and> (\<bar>snd (known ! (k + 1)) - snd (known ! k)\<bar> \<le> 3 * pi \<longrightarrow>
               \<bar>theta2adjusted (snd (known ! k)) (snd (known ! (k + 1))) - snd (known ! k)\<bar> \<le> pi)
          \<and> (\<forall>j. fst (known ! k) \<le> j \<and> j < fst (known ! (k + 1)) \<longrightarrow>
                pt_theta (pts' ! nat j) =
                  Some (linTheta (fst (known ! k)) (snd (known ! k))
                          (fst (known ! (k + 1))) (snd (known ! (k + 1))) j))"
    if k: "k + 1 < length known" for k
  proof -
    from k kn have kr: "k < length rest" and nx: "known ! (k + 1) = rest ! k" by auto
    from k have kk: "k < length known" by simp
    note p = pairs [OF kr]
    have "pt_theta (pts' ! nat j) =
                  Some (linTheta (fst (known ! k)) (snd (known ! k))
                          (fst (rest ! k)) (snd (rest ! k)) j)"
      if j: "fst (known ! k) \<le> j" "j < fst (rest ! k)" for j
    proof -
      from j lo [OF kk] p l1 have n: "nat j < length pts1" "int (nat j) = j" "j < iL" by auto
      from th [OF n(1)] n p j show ?thesis by simp
    qed
    with p theta2adjusted_bound theta2adjusted_cases show ?thesis unfolding nx by blast
  qed
  have B: "pt_theta (pts' ! nat j) = Some (snd (last known))"
    if "fst (last known) \<le> j" "j < int (length pts')" for j
  proof -
    from lastA have e: "fst (last known) = iL" "snd (last known) = tL"
      by (metis fst_conv, metis snd_conv)
    from that e iL0 len have n: "nat j < length pts1" "int (nat j) = j" by auto
    from th [OF n(1)] n that e len show ?thesis by simp
  qed
  from A B show ?thesis by blast
qed

lemma theta2adjusted_half: "theta2adjusted 0 pi = - pi"
  by (simp add: theta2adjusted_def)

lemma theta2adjusted_wrap: "theta2adjusted (3 * pi / 4) (- (3 * pi / 4)) = 5 * pi / 4"
proof -
  have "\<not> (- (3 * pi / 4) - 3 * pi / 4 \<ge> pi)" "3 * pi / 4 - - (3 * pi / 4) \<ge> pi"
    using pi_gt_zero by linarith+
  then show ?thesis
    unfolding theta2adjusted_def by (simp only: if_True if_False)
qed

lemma upt_three: "[0..<3] = [0, 1, 2]"
  by (simp add: upt_rec)

lemma setTheta_simps:
  "setTheta (p # ps) 0 v = Inr (p\<lparr>pt_theta := Some v\<rparr> # ps)"
  "setTheta (p # q # ps) 1 v = Inr (p # q\<lparr>pt_theta := Some v\<rparr> # ps)"
  "setTheta (p # q # r # ps) 2 v = Inr (p # q # r\<lparr>pt_theta := Some v\<rparr> # ps)"
  "setTheta (p # q # r # s # ps) 3 v = Inr (p # q # r # s\<lparr>pt_theta := Some v\<rparr> # ps)"
  by (simp_all add: setTheta_def py_valid_def py_pos_def)

lemma interpolateTheta_half:
  "interpolateTheta knownHalfTurn trajThree =
     Inr [(mkPoint 0 0)\<lparr>pt_theta := Some 0\<rparr>, (mkPoint 1 0)\<lparr>pt_theta := Some (- (pi / 2))\<rparr>,
          (mkPoint 2 0)\<lparr>pt_theta := Some pi\<rparr>]"
  by (simp add: interpolateTheta_def knownHalfTurn_def trajThree_def upt_three
        theta2adjusted_half setTheta_simps upto_rec1 mkPoint_def)

lemma interpolateTheta_wrap:
  "interpolateTheta knownWrap trajFour =
     Inr [(mkPoint 0 0)\<lparr>pt_theta := Some (3 * pi / 4)\<rparr>, (mkPoint 1 0)\<lparr>pt_theta := Some pi\<rparr>,
          (mkPoint 2 0)\<lparr>pt_theta := Some (- (3 * pi / 4))\<rparr>,
          (mkPoint 3 0)\<lparr>pt_theta := Some (- (3 * pi / 4))\<rparr>]"
  by (simp add: interpolateTheta_def knownWrap_def trajFour_def upt_three
        theta2adjusted_wrap setTheta_simps upto_rec1 mkPoint_def)

text \<open>
  Claim C3 as stated fails for anchors half a turn apart: the adjusted heading of \<open>pi\<close>
  against 0 is \<open>-pi\<close>, which is not less than \<open>pi\<close> away from 0, and neither is \<open>pi\<close> nor
  \<open>3 * pi\<close>; and the point at the second anchor's index 2, where the interpolation ends
  at \<open>-pi\<close>, has the heading \<open>pi\<close>.
\<close>

theorem heading_half_turn_counterexample:
  "interpolateTheta knownHalfTurn trajThree =
     Inr [(mkPoint 0 0)\<lparr>pt_theta := Some 0\<rparr>, (mkPoint 1 0)\<lparr>pt_theta := Some (- (pi / 2))\<rparr>,
          (mkPoint 2 0)\<lparr>pt_theta := Some pi\<rparr>]
   \<and> theta2adjusted 0 pi = - pi
   \<and> \<not> \<bar>theta2adjusted 0 pi - 0\<bar> < pi
   \<and> \<not> \<bar>pi - 0\<bar> < pi \<and> \<not> \<bar>(pi + 2 * pi) - 0\<bar> < pi \<and> \<not> \<bar>(pi - 2 * pi) - 0\<bar> < pi
   \<and> linTheta 0 0 2 pi 2 = - pi"
  by (simp add: interpolateTheta_half theta2adjusted_half linTheta_def)

theorem heading_interpolation_witness:
  "interpolateTheta knownWrap trajFour =
     Inr [(mkPoint 0 0)\<lparr>pt_theta := Some (3 * pi / 4)\<rparr>, (mkPoint 1 0)\<lparr>pt_theta := Some pi\<rparr>,
          (mkPoint 2 0)\<lparr>pt_theta := Some (- (3 * pi / 4))\<rparr>,
          (mkPoint 3 0)\<lparr>pt_theta := Some (- (3 * pi / 4))\<rparr>]
   \<and> sorted (map fst knownWrap)
   \<and> 0 + 1 < length knownWrap
   \<and> \<bar>snd (knownWrap ! (0 + 1)) - snd (knownWrap ! 0)\<bar> \<le> 3 * pi
   \<and> \<bar>theta2adjusted (snd (knownWrap ! 0)) (snd (knownWrap ! (0 + 1))) - snd (knownWrap ! 0)\<bar> \<le> pi
   \<and> linTheta (fst (knownWrap ! 0)) (snd (knownWrap ! 0))
        (fst (knownWrap ! (0 + 1))) (snd (knownWrap ! (0 + 1))) 1 = pi
   \<and> fst (last knownWrap) \<le> 3"
proof -
  have so: "sorted (map fst knownWrap)" by (simp add: knownWrap_def)
  have k: "0 + 1 < length knownWrap" by (simp add: knownWrap_def)
  have d: "\<bar>snd (knownWrap ! (0 + 1)) - snd (knownWrap ! 0)\<bar> \<le> 3 * pi"
    using pi_gt_zero by (simp add: knownWrap_def)
  have l: "linTheta (fst (knownWrap ! 0)) (snd (knownWrap ! 0))
        (fst (knownWrap ! (0 + 1))) (snd (knownWrap ! (0 + 1))) 1 = pi"
    by (simp add: knownWrap_def linTheta_def theta2adjusted_wrap)
  have f: "fst (last knownWrap) \<le> 3" by (simp add: knownWrap_def)
  from heading_interpolation [OF interpolateTheta_wrap so] k d
  have "\<bar>theta2adjusted (snd (knownWrap ! 0)) (snd (knownWrap ! (0 + 1))) - snd (knownWrap ! 0)\<bar> \<le> pi"
    by blast
  with interpolateTheta_wrap so k d l f show ?thesis by blast
qed

section \<open>The anchors that the interpolator builds\<close>

lemma interpolatePoints_positionPass:
  "interpolatePoints fuel p =
     (if length (poses p) < 2 then Inr (p\<lparr>points := []\<rparr>)
      else (case positionPass fuel p of
              Inl e \<Rightarrow> Inl e
            | Inr (pts, known) \<Rightarrow>
                (case interpolateTheta known pts of
                   Inl e \<Rightarrow> Inl e
                 | Inr pts' \<Rightarrow> Inr (p\<lparr>points := pts'\<rparr>))))"
  by (simp add: interpolatePoints_def positionPass_def Let_def split: sum.splits prod.splits)

lemma interpolateSplineCurve_extends:
  assumes "interpolateSplineCurve fuel ps segD pts i s = Inr (pts', s')"
  shows "\<exists>ext. pts' = pts @ ext"
proof (cases "pts' = pts")
  case True
  then show ?thesis by simp
next
  case False
  with assms obtain ns where
    "sampleLoop fuel segD (pose_x (ps ! i), pose_y (ps ! i))
       (forward_x (ps ! i), forward_y (ps ! i))
       (backward_x (ps ! (i + 1)), backward_y (ps ! (i + 1)))
       (pose_x (ps ! (i + 1)), pose_y (ps ! (i + 1))) ns None pts = Inr (pts', s')"
    by (auto simp: interpolateSplineCurve_def Let_def split: if_splits)
  from sampleLoop_result [OF this] show ?thesis by blast
qed

lemma segmentStep_anchors:
  assumes "segmentStep fuel ps segD i (pts, known, s) = Inr (pts', known', s')"
    and "anchorsOk pts known"
  shows "anchorsOk pts' known' \<and> (\<exists>extra. known' = known @ extra)
     \<and> (known = [] \<and> pts = [] \<and> known' \<noteq> [] \<longrightarrow> fst (hd known') = 0)"
proof (cases "pose_x (ps ! i) = pose_x (ps ! (i + 1)) \<and> pose_y (ps ! i) = pose_y (ps ! (i + 1))")
  case True
  with assms show ?thesis
    by (auto simp: segmentStep_def split: if_splits)
next
  case False
  let ?k = "(case pose_theta (ps ! i) of None \<Rightarrow> known
             | Some th \<Rightarrow> known @ [(int (length pts), th)])"
  from False assms(1) obtain s0 where
    c: "interpolateSplineCurve fuel ps segD pts i s = Inr (pts', s0)" and k: "known' = ?k"
    by (auto simp: segmentStep_def Let_def split: if_splits sum.splits)
  from interpolateSplineCurve_extends [OF c] have len: "length pts \<le> length pts'" by auto
  have ok1: "anchorsOk pts ?k"
    using assms(2) by (auto simp: anchorsOk_def sorted_append split: option.splits)
  have "anchorsOk pts' ?k"
    using ok1 len by (fastforce simp: anchorsOk_def)
  moreover have "\<exists>extra. ?k = known @ extra" by (auto split: option.splits)
  moreover have "known = [] \<and> pts = [] \<and> ?k \<noteq> [] \<longrightarrow> fst (hd ?k) = 0"
    by (auto split: option.splits)
  ultimately show ?thesis using k by simp
qed

lemma interpolateSegments_anchors:
  assumes "interpolateSegments fuel ps segD idxs (pts, known, s) = Inr (pts', known', s')"
    and "anchorsOk pts known"
  shows "anchorsOk pts' known' \<and> (\<exists>extra. known' = known @ extra)"
  using assms
proof (induction idxs arbitrary: pts known s)
  case Nil
  then show ?case by simp
next
  case (Cons i rest)
  from Cons.prems(1) obtain pts1 known1 s1 where
    st: "segmentStep fuel ps segD i (pts, known, s) = Inr (pts1, known1, s1)"
    and r: "interpolateSegments fuel ps segD rest (pts1, known1, s1) = Inr (pts', known', s')"
    by (auto split: sum.splits)
  from segmentStep_anchors [OF st Cons.prems(2)] have
    ok: "anchorsOk pts1 known1" and ex: "\<exists>extra. known1 = known @ extra" by auto
  from Cons.IH [OF r ok] ex show ?case by auto
qed

lemma thetaAnchors_prefix_bound:
  assumes "thetaAnchors i1 t1 (rest @ extra) pts = Inr r"
    and "0 \<le> i1" and "sorted (i1 # map fst rest)"
  shows "\<forall>a \<in> set rest. fst a < int (length pts)"
  using assms
proof (induction rest arbitrary: i1 t1 pts)
  case Nil
  then show ?case by simp
next
  case (Cons a rest)
  obtain i2 t2 where a: "a = (i2, t2)" by (cases a)
  from Cons.prems(1) a obtain pts1 where
    sp: "thetaSpan i1 t1 i2 t2 [0..<nat (i2 - i1 + 1)] pts = Inr pts1"
    and an: "thetaAnchors i2 t2 (rest @ extra) pts1 = Inr r"
    by (auto split: sum.splits)
  from Cons.prems(3) a have le: "i1 \<le> i2" and so: "sorted (i2 # map fst rest)"
    by auto
  from thetaSpan_range [OF sp Cons.prems(2) le] have
    lt: "i1 < i2" and ub: "i2 < int (length pts)" and l1: "length pts1 = length pts"
    by auto
  from lt Cons.prems(2) have i20: "0 \<le> i2" by simp
  from Cons.IH [OF an i20 so] l1 ub a show ?case by auto
qed

lemma interpolateTheta_no_points:
  "interpolateTheta [(0, t1), (- 1, th)] [] = Inl IndexError"
  by (simp add: interpolateTheta_def upto_rec1 setTheta_def py_valid_def)

text \<open>Whenever the heading pass returns on the anchors that the interpolator has built,
  their indices are in ascending order.\<close>

lemma positionPass_sorted:
  assumes "positionPass fuel p = Inr (pts, known)"
    and "interpolateTheta known pts = Inr pts'"
  shows "sorted (map fst known)"
proof -
  from assms(1) obtain known0 s where
    seg: "interpolateSegments fuel (poses p) (segmentDistance p)
             [0..<length (poses p) - 1] ([], [], 0) = Inr (pts, known0, s)"
    and kn: "known = (case pose_theta (last (poses p)) of
                       None \<Rightarrow> known0
                     | Some th \<Rightarrow> known0 @ [(int (length pts) - 1, th)])"
    by (auto simp: positionPass_def split: sum.splits)
  have "anchorsOk [] []" by (simp add: anchorsOk_def)
  from interpolateSegments_anchors [OF seg this] have ok: "anchorsOk pts known0" by simp
  then have s0: "sorted (map fst known0)" and nn: "\<forall>a \<in> set known0. 0 \<le> fst a"
    by (auto simp: anchorsOk_def)
  show ?thesis
  proof (cases "pose_theta (last (poses p))")
    case None
    with kn s0 show ?thesis by simp
  next
    case (Some th)
    with kn have k: "known = known0 @ [(int (length pts) - 1, th)]" by simp
    show ?thesis
    proof (cases known0)
      case Nil
      with k show ?thesis by simp
    next
      case (Cons a rest0)
      with k assms(2) obtain t1 where a: "a = (0, t1)"
        by (cases a) (auto simp: interpolateTheta_def split: if_splits)
      from k Cons a assms(2) obtain r where
        an: "thetaAnchors 0 t1 (rest0 @ [(int (length pts) - 1, th)]) pts = Inr r"
        by (auto simp: interpolateTheta_def split: sum.splits)
      from s0 Cons a have so: "sorted (0 # map fst rest0)" by simp
      from thetaAnchors_prefix_bound [OF an _ so]
      have b: "\<forall>a \<in> set rest0. fst a < int (length pts)" by simp
      have ne: "pts \<noteq> []"
      proof
        assume e: "pts = []"
        with b nn Cons have "rest0 = []" by (cases rest0) fastforce+
        with k Cons a e assms(2) interpolateTheta_no_points [of t1 th] show False by simp
      qed
      with b Cons a have "\<forall>a \<in> set known0. fst a \<le> int (length pts) - 1"
        by (cases pts) auto
      with s0 k show ?thesis by (auto simp: sorted_append)
    qed
  qed
qed

text \<open>When the first pose has a heading and the second pose is at another position,
  the first anchor is the first pose's, at index 0.\<close>

lemma positionPass_first_anchor:
  assumes "positionPass fuel p = Inr (pts, known)"
    and "2 \<le> length (poses p)"
    and "pose_theta (poses p ! 0) = Some th"
    and "\<not> (pose_x (poses p ! 0) = pose_x (poses p ! 1) \<and> pose_y (poses p ! 0) = pose_y (poses p ! 1))"
  shows "known \<noteq> [] \<and> hd known = (0, th)"
proof -
  let ?ps = "poses p" and ?d = "segmentDistance p"
  from assms(2) have idx: "[0..<length ?ps - 1] = 0 # [1..<length ?ps - 1]"
    by (simp add: upt_rec)
  from assms(1) obtain known0 s where
    seg: "interpolateSegments fuel ?ps ?d [0..<length ?ps - 1] ([], [], 0) = Inr (pts, known0, s)"
    and kn: "\<exists>extra. known = known0 @ extra"
    by (auto simp: positionPass_def split: sum.splits option.splits)
  from seg idx obtain pts1 known1 s1 where
    st: "segmentStep fuel ?ps ?d 0 ([], [], 0) = Inr (pts1, known1, s1)"
    and r: "interpolateSegments fuel ?ps ?d [1..<length ?ps - 1] (pts1, known1, s1)
              = Inr (pts, known0, s)"
    by (auto split: sum.splits)
  from st assms(3,4) have k1: "known1 = [(0, th)]"
    by (auto simp: segmentStep_def Let_def split: if_splits sum.splits)
  have "anchorsOk [] []" by (simp add: anchorsOk_def)
  from segmentStep_anchors [OF st this] have "anchorsOk pts1 known1" by simp
  from interpolateSegments_anchors [OF r this] k1 obtain extra where
    "known0 = (0, th) # extra" by auto
  with kn show ?thesis by auto
qed

end
